theory Spec2Isabelle
  imports Complex_Main "HOL-Library.Word"
begin

text \<open>
  A model of app.ts, the one source file of the project board: the validator of the form
  fields, the Store of projects with its callbacks, the form that adds a project, the
  two lists that show the projects, and the handlers of the drag events. Strings,
  numbers and arrays are modelled as the language has them; the elements of the page
  are reduced to the fields that the methods read and write.
\<close>

section \<open>Values of the language\<close>

text \<open>
  A string of the program is a sequence of UTF-16 code units; \<open>length\<close> is what
  the source's \<open>.length\<close> counts. \<open>utf16\<close> writes a literal of Latin-1 characters.
\<close>

type_synonym jsstring = "16 word list"

definition utf16 :: "string \<Rightarrow> jsstring" where
  "utf16 cs = map (\<lambda>c. of_nat (of_char c)) cs"

text \<open>
  A number of the program is a double: a rational, or one of the three special values.
  Only the comparisons \<open><\<close> and \<open>>\<close> are used by app.ts, and on doubles they are
  exact: the order of the rationals on finite values, false whenever an operand is NaN.
\<close>

datatype jsnum = Finite rat | NaN | PosInf | NegInf

fun js_lt :: "jsnum \<Rightarrow> jsnum \<Rightarrow> bool" where
  "js_lt NaN b = False"
| "js_lt a NaN = False"
| "js_lt (Finite a) (Finite b) = (a < b)"
| "js_lt (Finite a) PosInf = True"
| "js_lt (Finite a) NegInf = False"
| "js_lt PosInf b = False"
| "js_lt NegInf (Finite b) = True"
| "js_lt NegInf PosInf = True"
| "js_lt NegInf NegInf = False"

definition js_gt :: "jsnum \<Rightarrow> jsnum \<Rightarrow> bool" where
  "js_gt a b = js_lt b a"

text \<open>The type \<open>string | number\<close> of \<open>Validation.value\<close> and of a console argument.\<close>

datatype jsval = Str jsstring | Num jsnum

text \<open>
  \<open>String.prototype.trim\<close> removes white space and line terminators from both ends.
\<close>

definition isWhiteSpace :: "16 word \<Rightarrow> bool" where
  "isWhiteSpace c = (c \<in> set [0x0009, 0x000A, 0x000B, 0x000C, 0x000D, 0x0020, 0x00A0,
      0x1680, 0x2000, 0x2001, 0x2002, 0x2003, 0x2004, 0x2005, 0x2006, 0x2007, 0x2008,
      0x2009, 0x200A, 0x2028, 0x2029, 0x202F, 0x205F, 0x3000, 0xFEFF])"

definition trim :: "jsstring \<Rightarrow> jsstring" where
  "trim s = rev (dropWhile isWhiteSpace (rev (dropWhile isWhiteSpace s)))"

section \<open>The validator\<close>

text \<open>
  \<^verbatim>\<open>interface Validation { value: string | number; required?: boolean;
    minLength?: number; maxLength?: number; min?: number; max?: number; }\<close>
  An optional field that is absent is \<open>None\<close>.
\<close>

record Validation =
  value' :: jsval
  required :: "bool option"
  minLength :: "jsnum option"
  maxLength :: "jsnum option"
  min' :: "jsnum option"
  max' :: "jsnum option"

text \<open>
  \<open>value.toString().trim().length !== 0\<close>. The string form of a number
  (\<open>0\<close>, \<open>NaN\<close>, \<open>Infinity\<close>, digits with a sign, a point or an exponent) is never
  empty and holds no white space, so the test is true of every number.
\<close>

fun notBlank :: "jsval \<Rightarrow> bool" where
  "notBlank (Str s) = (length (trim s) \<noteq> 0)"
| "notBlank (Num n) = True"

text \<open>\<open>value.length\<close> as a number, for the comparison with a bound.\<close>

definition lengthOf :: "jsstring \<Rightarrow> jsnum" where
  "lengthOf s = Finite (of_nat (length s))"

text \<open>
  \<open>validateForm\<close>, one \<open>if\<close> of the source per line. A bound applies when it is
  present (\<open>!= null\<close>) and the value has the type the check asks for.
\<close>

definition validateForm :: "Validation \<Rightarrow> bool" where
  "validateForm validationInput =
    (let isValid0 = True;
         isValid1 = (if required validationInput = Some True
                     then isValid0 \<and> notBlank (value' validationInput) else isValid0);
         isValid2 = (case (minLength validationInput, value' validationInput) of
                       (Some b, Str s) \<Rightarrow> isValid1 \<and> js_gt (lengthOf s) b
                     | _ \<Rightarrow> isValid1);
         isValid3 = (case (maxLength validationInput, value' validationInput) of
                       (Some b, Str s) \<Rightarrow> isValid2 \<and> js_gt (lengthOf s) b
                     | _ \<Rightarrow> isValid2);
         isValid4 = (case (min' validationInput, value' validationInput) of
                       (Some b, Num n) \<Rightarrow> isValid3 \<and> js_gt n b
                     | _ \<Rightarrow> isValid3);
         isValid5 = (case (max' validationInput, value' validationInput) of
                       (Some b, Num n) \<Rightarrow> isValid4 \<and> js_lt n b
                     | _ \<Rightarrow> isValid4)
     in isValid5)"

section \<open>The entity model\<close>

datatype ProjectStatus = Active | Finished

text \<open>
  The fields of a \<open>Project\<close>, which are public and writable. No statement of app.ts
  assigns one after the construction, and the Store as the page uses it holds projects
  as values, in arrays that are mutable and live in a heap. Where callbacks of any kind
  are admitted, which may write these fields, a \<open>Project\<close> is an object at an address
  (section The state store under callbacks of any kind).
\<close>

record Project =
  id' :: jsstring
  title :: jsstring
  description :: jsstring
  people :: jsnum
  status :: ProjectStatus

section \<open>Services of the platform\<close>

text \<open>
  Two built-ins of the language whose results the program uses but does not compute:
  \<open>toNumber\<close> is the unary \<open>+\<close> applied to a string; \<open>randomString k\<close> is
  \<open>Math.random().toString()\<close> at the call of \<open>Math.random\<close> that \<open>k\<close> calls precede.
\<close>

record platform =
  toNumber :: "jsstring \<Rightarrow> jsnum"
  randomString :: "nat \<Rightarrow> jsstring"

section \<open>The state store\<close>

type_synonym addr = nat

text \<open>
  \<^verbatim>\<open>type Listener<T> = (items: T[]) => void\<close>. A callback is a function object with an
  identity (\<open>ident\<close>). Its \<open>body\<close> receives the contents of the array it is handed and
  the state \<open>'w\<close> that it owns; it returns what it has made of that array and of that
  state. This is a callback that keeps to the array it is handed and to its own
  state, as the two callbacks of app.ts do; callbacks that write the fields of a
  project, call the Store or throw are those of section The state store under
  callbacks of any kind.
\<close>

record 'w Listener =
  ident :: nat
  body :: "Project list \<Rightarrow> 'w \<Rightarrow> Project list \<times> 'w"

text \<open>
  An object of class \<open>ProjectState\<close>: the inherited \<open>listeners\<close> and the reference
  \<open>projects\<close> to the array of projects.
\<close>

record 'w ProjectState =
  listeners :: "'w Listener list"
  projects :: addr

text \<open>
  The state of the running script: the static field \<open>ProjectState.instance\<close>
  (\<open>None\<close> is \<open>undefined\<close>), the objects and the arrays that have been allocated, the
  next free address, the number of calls of \<open>Math.random\<close> so far, the callbacks'
  own state, and a record of the calls of callbacks made so far: which function, the
  address of the array it was handed, and that array's contents at the call.
\<close>

record 'w js =
  instance' :: "addr option"
  objects :: "addr \<Rightarrow> 'w ProjectState"
  arrays :: "addr \<Rightarrow> Project list"
  next_addr :: addr
  random_calls :: nat
  invocations :: "(nat \<times> addr \<times> Project list) list"
  world :: 'w

text \<open>
  \<open>new ProjectState()\<close>: the object, then the field initialisers \<open>listeners = []\<close>
  and \<open>projects = []\<close>, the latter a new array.
\<close>

definition new_ProjectState :: "'w js \<Rightarrow> addr \<times> 'w js" where
  "new_ProjectState s =
    (let this = next_addr s;
         arr = Suc this
     in (this, s\<lparr>objects := (objects s)(this := \<lparr>listeners = [], projects = arr\<rparr>),
                 arrays := (arrays s)(arr := []),
                 next_addr := Suc arr\<rparr>))"

definition getInstance :: "'w js \<Rightarrow> addr \<times> 'w js" where
  "getInstance s =
    (case instance' s of
       Some i \<Rightarrow> (i, s)
     | None \<Rightarrow> (let (i, s1) = new_ProjectState s in (i, s1\<lparr>instance' := Some i\<rparr>)))"

definition addListener :: "addr \<Rightarrow> 'w Listener \<Rightarrow> 'w js \<Rightarrow> 'w js" where
  "addListener this listenerFunction s =
    s\<lparr>objects := (objects s)(this :=
        (objects s this)\<lparr>listeners := listeners (objects s this) @ [listenerFunction]\<rparr>)\<rparr>"

text \<open>\<open>this.projects.slice()\<close>: a new array with the elements of the one at \<open>a\<close>.\<close>

definition slice :: "addr \<Rightarrow> 'w js \<Rightarrow> addr \<times> 'w js" where
  "slice a s =
    (let copy = next_addr s
     in (copy, s\<lparr>arrays := (arrays s)(copy := arrays s a), next_addr := Suc copy\<rparr>))"

text \<open>
  The body of the loop, \<open>listenerFunction(this.projects.slice())\<close>: the callback is
  handed a slice of its own, taken when its turn comes; what it does to that array is
  written to the address it was handed.
\<close>

definition callListener :: "addr \<Rightarrow> 'w Listener \<Rightarrow> 'w js \<Rightarrow> 'w js" where
  "callListener this listenerFunction s =
    (let (a, s1) = slice (projects (objects s this)) s;
         items = arrays s1 a;
         (items', w') = body listenerFunction items (world s1)
     in s1\<lparr>arrays := (arrays s1)(a := items'),
            world := w',
            invocations := invocations s1 @ [(ident listenerFunction, a, items)]\<rparr>)"

text \<open>The loop \<open>for (const listenerFunction of this.listeners)\<close>.\<close>

fun notify :: "addr \<Rightarrow> 'w Listener list \<Rightarrow> 'w js \<Rightarrow> 'w js" where
  "notify this [] s = s"
| "notify this (listenerFunction # rest) s = notify this rest (callListener this listenerFunction s)"

definition newProject :: "platform \<Rightarrow> jsstring \<Rightarrow> jsstring \<Rightarrow> jsnum \<Rightarrow> 'w js \<Rightarrow> Project" where
  "newProject P t d numOfPeople s =
    \<lparr>id' = randomString P (random_calls s), title = t, description = d,
     people = numOfPeople, status = Active\<rparr>"

definition addProject ::
  "platform \<Rightarrow> addr \<Rightarrow> jsstring \<Rightarrow> jsstring \<Rightarrow> jsnum \<Rightarrow> 'w js \<Rightarrow> 'w js" where
  "addProject P this t d numOfPeople s =
    (let arr = projects (objects s this);
         s1 = s\<lparr>random_calls := Suc (random_calls s),
                arrays := (arrays s)(arr := arrays s arr @ [newProject P t d numOfPeople s])\<rparr>
     in notify this (listeners (objects s1 this)) s1)"

text \<open>The sequence of projects that the Store at \<open>this\<close> holds.\<close>

definition projectsOf :: "addr \<Rightarrow> 'w js \<Rightarrow> Project list" where
  "projectsOf this s = arrays s (projects (objects s this))"

text \<open>The array of the Store has been allocated: its address is below the next free one.\<close>

definition allocated :: "addr \<Rightarrow> 'w js \<Rightarrow> bool" where
  "allocated this s = (projects (objects s this) < next_addr s)"

text \<open>The state before the script has run: nothing is allocated.\<close>

definition start :: "'w \<Rightarrow> 'w js" where
  "start w = \<lparr>instance' = None, objects = (\<lambda>a. \<lparr>listeners = [], projects = 0\<rparr>),
              arrays = (\<lambda>a. []), next_addr = 0, random_calls = 0, invocations = [],
              world = w\<rparr>"

text \<open>
  What a client of the Store can do: each call goes through \<open>ProjectState.getInstance()\<close>,
  the one way to a Store that the private constructor leaves.
\<close>

datatype 'w call = GetInstance | AddListener "'w Listener" | AddProject jsstring jsstring jsnum

fun perform :: "platform \<Rightarrow> 'w call \<Rightarrow> 'w js \<Rightarrow> 'w js" where
  "perform P GetInstance s = snd (getInstance s)"
| "perform P (AddListener l) s = (let (i, s1) = getInstance s in addListener i l s1)"
| "perform P (AddProject t d n) s = (let (i, s1) = getInstance s in addProject P i t d n s1)"

definition performAll :: "platform \<Rightarrow> 'w call list \<Rightarrow> 'w js \<Rightarrow> 'w js" where
  "performAll P cs s = foldl (\<lambda>s c. perform P c s) s cs"

text \<open>The callbacks that a sequence of calls registers, in order.\<close>

definition registered :: "'w call list \<Rightarrow> 'w Listener list" where
  "registered cs = concat (map (\<lambda>c. case c of AddListener l \<Rightarrow> [l] | _ \<Rightarrow> []) cs)"

text \<open>The Store, when there is one, has its array allocated.\<close>

definition storeAllocated :: "'w js \<Rightarrow> bool" where
  "storeAllocated s = (case instance' s of None \<Rightarrow> True | Some i \<Rightarrow> allocated i s)"

section \<open>Drag events\<close>

text \<open>
  The part of the platform's \<open>DragEvent\<close> that the handlers touch. The drag data store
  is a list of items (format, data); \<open>setData\<close> replaces the item of its format,
  \<open>getData\<close> returns the empty string when there is none, \<open>types\<close> lists the formats.
  \<open>event.dataTransfer\<close> may be \<open>null\<close>.
\<close>

datatype error = TypeError

record DataTransfer =
  store :: "(jsstring \<times> jsstring) list"
  effectAllowed :: jsstring

definition setData :: "jsstring \<Rightarrow> jsstring \<Rightarrow> DataTransfer \<Rightarrow> DataTransfer" where
  "setData format d dt = dt\<lparr>store := filter (\<lambda>item. fst item \<noteq> format) (store dt) @ [(format, d)]\<rparr>"

definition getData :: "jsstring \<Rightarrow> DataTransfer \<Rightarrow> jsstring" where
  "getData format dt = (case map_of (store dt) format of None \<Rightarrow> [] | Some d \<Rightarrow> d)"

definition types :: "DataTransfer \<Rightarrow> jsstring list" where
  "types dt = map fst (store dt)"

record DragEvent =
  dataTransfer :: "DataTransfer option"
  defaultPrevented :: bool

section \<open>The components\<close>

text \<open>
  Of a component, the fields that its methods read and write; the elements cloned from
  the templates are not modelled. An input element is its \<open>value\<close>, a list's \<open>ul\<close>
  element is the rows rendered into it and whether it carries the class \<open>droppable\<close>.
\<close>

record ProjectInput =
  titleInputElement :: jsstring
  descriptionInputElement :: jsstring
  peopleInputElement :: jsstring

record ProjectItem =
  project :: Project

datatype ListType = ListActive | ListFinished

record ProjectLists =
  type' :: ListType
  assignedProjects :: "Project list"
  rows :: "ProjectItem list"
  droppable :: bool

text \<open>
  The constants of the script (\<open>projectState\<close>, \<open>myForm\<close>, \<open>activeProjectLists\<close>,
  \<open>finishedProjectLists\<close>) with the messages shown by \<open>alert\<close> and the lines written
  by \<open>console.log\<close>.
\<close>

record page =
  projectState :: addr
  myForm :: ProjectInput
  activeProjectLists :: ProjectLists
  finishedProjectLists :: ProjectLists
  alerts :: "jsstring list"
  console :: "jsval list list"

definition listOf :: "ListType \<Rightarrow> page \<Rightarrow> ProjectLists" where
  "listOf which w =
    (case which of ListActive \<Rightarrow> activeProjectLists w | ListFinished \<Rightarrow> finishedProjectLists w)"

definition setListOf :: "ListType \<Rightarrow> ProjectLists \<Rightarrow> page \<Rightarrow> page" where
  "setListOf which l w =
    (case which of ListActive \<Rightarrow> w\<lparr>activeProjectLists := l\<rparr>
                 | ListFinished \<Rightarrow> w\<lparr>finishedProjectLists := l\<rparr>)"

subsection \<open>ProjectItem\<close>

definition dragStartHandler :: "ProjectItem \<Rightarrow> DragEvent \<Rightarrow> error + DragEvent" where
  "dragStartHandler this event =
    (case dataTransfer event of
       None \<Rightarrow> Inl TypeError
     | Some dt \<Rightarrow>
         Inr (event\<lparr>dataTransfer :=
                Some ((setData (utf16 ''text/plain'') (id' (project this)) dt)
                        \<lparr>effectAllowed := utf16 ''move''\<rparr>)\<rparr>))"

definition dragEndHandler :: "page \<Rightarrow> page" where
  "dragEndHandler w = w\<lparr>console := console w @ [[Str (utf16 ''DragEnd'')]]\<rparr>"

subsection \<open>ProjectLists\<close>

text \<open>\<open>renderProjects\<close>: the list is emptied, then one row per assigned project.\<close>

definition renderProjects :: "ProjectLists \<Rightarrow> ProjectLists" where
  "renderProjects this = this\<lparr>rows := map (\<lambda>projectItems. \<lparr>project = projectItems\<rparr>)
                                        (assignedProjects this)\<rparr>"

text \<open>The callback that \<open>configure\<close> registers; \<open>filter\<close> leaves its array as it is.\<close>

definition projectsListener :: "ListType \<Rightarrow> Project list \<Rightarrow> page \<Rightarrow> Project list \<times> page" where
  "projectsListener which projects0 w =
    (let this = listOf which w;
         filteredProjects = filter (\<lambda>item. if type' this = ListActive
                                            then status item = Active
                                            else status item = Finished) projects0
     in (projects0, setListOf which (renderProjects (this\<lparr>assignedProjects := filteredProjects\<rparr>)) w))"

definition configure :: "ListType \<Rightarrow> page js \<Rightarrow> page js" where
  "configure which s =
    (let f = next_addr s;
         s1 = s\<lparr>next_addr := Suc f\<rparr>
     in addListener (projectState (world s1)) \<lparr>ident = f, body = projectsListener which\<rparr> s1)"

definition new_ProjectLists :: "ListType \<Rightarrow> page js \<Rightarrow> page js" where
  "new_ProjectLists t s =
    configure t (s\<lparr>world := setListOf t \<lparr>type' = t, assignedProjects = [], rows = [],
                                         droppable = False\<rparr> (world s)\<rparr>)"

definition dragOverHandler :: "ListType \<Rightarrow> DragEvent \<Rightarrow> page \<Rightarrow> DragEvent \<times> page" where
  "dragOverHandler which event w =
    (case dataTransfer event of
       None \<Rightarrow> (event, w)
     | Some dt \<Rightarrow>
         (case types dt of
            [] \<Rightarrow> (event, w)
          | t # ts \<Rightarrow>
              if t = utf16 ''text/plain''
              then (event\<lparr>defaultPrevented := True\<rparr>,
                    setListOf which ((listOf which w)\<lparr>droppable := True\<rparr>) w)
              else (event, w)))"

definition dropHandler :: "DragEvent \<Rightarrow> page \<Rightarrow> error + page" where
  "dropHandler event w =
    (case dataTransfer event of
       None \<Rightarrow> Inl TypeError
     | Some dt \<Rightarrow> Inr (w\<lparr>console := console w @ [[Str (getData (utf16 ''text/plain'') dt)]]\<rparr>))"

definition dragLeaveHandler :: "ListType \<Rightarrow> page \<Rightarrow> page" where
  "dragLeaveHandler which w = setListOf which ((listOf which w)\<lparr>droppable := False\<rparr>) w"

subsection \<open>ProjectInput\<close>

text \<open>\<open>fetchUserInput\<close> returns the tuple, or nothing after the alert.\<close>

definition fetchUserInput :: "platform \<Rightarrow> page \<Rightarrow> (jsstring \<times> jsstring \<times> jsnum) option \<times> page" where
  "fetchUserInput P w =
    (let enterTitle = titleInputElement (myForm w);
         enterDescription = descriptionInputElement (myForm w);
         enterPeople = peopleInputElement (myForm w);
         titleValidationInput =
           \<lparr>value' = Str enterTitle, required = Some True, minLength = None,
            maxLength = None, min' = None, max' = None\<rparr>;
         descriptionValidationInput =
           \<lparr>value' = Str enterDescription, required = Some True, minLength = Some (Finite 5),
            maxLength = None, min' = None, max' = None\<rparr>;
         peopleValidationInput =
           \<lparr>value' = Num (toNumber P enterPeople), required = Some True, minLength = None,
            maxLength = None, min' = Some (Finite 0), max' = Some (Finite 5)\<rparr>
     in if \<not> validateForm titleValidationInput \<or>
           \<not> validateForm descriptionValidationInput \<or>
           \<not> validateForm peopleValidationInput
        then (None, w\<lparr>alerts := alerts w @ [utf16 ''please provide all required information '']\<rparr>)
        else (Some (enterTitle, enterDescription, toNumber P enterPeople), w))"

text \<open>
  \<open>new ProjectInput()\<close>: the three input elements of the cloned form hold the empty
  string until the user types.
\<close>

definition new_ProjectInput :: "page js \<Rightarrow> page js" where
  "new_ProjectInput s =
    s\<lparr>world := (world s)\<lparr>myForm := \<lparr>titleInputElement = [], descriptionInputElement = [],
                                         peopleInputElement = []\<rparr>\<rparr>\<rparr>"

definition clearInput :: "page \<Rightarrow> page" where
  "clearInput w = w\<lparr>myForm := \<lparr>titleInputElement = [], descriptionInputElement = [],
                               peopleInputElement = []\<rparr>\<rparr>"

definition submitHandler :: "platform \<Rightarrow> page js \<Rightarrow> page js" where
  "submitHandler P s =
    (let (userInput, w1) = fetchUserInput P (world s);
         s1 = s\<lparr>world := w1\<rparr>
     in case userInput of
          None \<Rightarrow> s1
        | Some (t, desc, people0) \<Rightarrow>
            (let s2 = s1\<lparr>world := (world s1)\<lparr>console := console (world s1) @
                                                 [[Str t, Str desc, Num people0]]\<rparr>\<rparr>;
                 s3 = addProject P (projectState (world s2)) t desc people0 s2
             in s3\<lparr>world := clearInput (world s3)\<rparr>))"

text \<open>
  The three validations of a submission, as \<open>fetchUserInput\<close> sets them up, all pass.
\<close>

definition validSubmission :: "platform \<Rightarrow> page \<Rightarrow> bool" where
  "validSubmission P w =
    (validateForm \<lparr>value' = Str (titleInputElement (myForm w)), required = Some True,
                   minLength = None, maxLength = None, min' = None, max' = None\<rparr>
     \<and> validateForm \<lparr>value' = Str (descriptionInputElement (myForm w)), required = Some True,
                     minLength = Some (Finite 5), maxLength = None, min' = None, max' = None\<rparr>
     \<and> validateForm \<lparr>value' = Num (toNumber P (peopleInputElement (myForm w))),
                     required = Some True, minLength = None, maxLength = None,
                     min' = Some (Finite 0), max' = Some (Finite 5)\<rparr>)"

text \<open>The page after the alert of a failed submission, and after a line on the console.\<close>

definition alerted :: "page \<Rightarrow> page" where
  "alerted w = w\<lparr>alerts := alerts w @ [utf16 ''please provide all required information '']\<rparr>"

definition logged :: "jsval list \<Rightarrow> page \<Rightarrow> page" where
  "logged line w = w\<lparr>console := console w @ [line]\<rparr>"

subsection \<open>The script and the events it handles\<close>

text \<open>
  The page before the script runs, and the statements of the script in their order:
  \<open>projectState\<close>, the form, the two lists.
\<close>

definition blankPage :: page where
  "blankPage =
    \<lparr>projectState = 0,
     myForm = \<lparr>titleInputElement = [], descriptionInputElement = [], peopleInputElement = []\<rparr>,
     activeProjectLists = \<lparr>type' = ListActive, assignedProjects = [], rows = [], droppable = False\<rparr>,
     finishedProjectLists = \<lparr>type' = ListFinished, assignedProjects = [], rows = [], droppable = False\<rparr>,
     alerts = [], console = []\<rparr>"

definition main :: "page js" where
  "main =
    (let (i, s1) = getInstance (start blankPage);
         s2 = s1\<lparr>world := (world s1)\<lparr>projectState := i\<rparr>\<rparr>;
         s3 = new_ProjectInput s2;
         s4 = new_ProjectLists ListActive s3
     in new_ProjectLists ListFinished s4)"

text \<open>
  What can happen to the page once the script has run: the user edits a field, submits
  the form, drags a row, and code of the page calls the Store. An exception thrown by
  a handler ends the handler; a drag start changes its event only.
\<close>

datatype event =
    InputTitle jsstring | InputDescription jsstring | InputPeople jsstring
  | Submit
  | DragStart ListType nat DragEvent | DragEnd
  | DragOver ListType DragEvent | Drop DragEvent | DragLeave ListType
  | CallGetInstance | CallAddProject jsstring jsstring jsnum

fun dispatch :: "platform \<Rightarrow> event \<Rightarrow> page js \<Rightarrow> page js" where
  "dispatch P (InputTitle v) s =
     s\<lparr>world := (world s)\<lparr>myForm := (myForm (world s))\<lparr>titleInputElement := v\<rparr>\<rparr>\<rparr>"
| "dispatch P (InputDescription v) s =
     s\<lparr>world := (world s)\<lparr>myForm := (myForm (world s))\<lparr>descriptionInputElement := v\<rparr>\<rparr>\<rparr>"
| "dispatch P (InputPeople v) s =
     s\<lparr>world := (world s)\<lparr>myForm := (myForm (world s))\<lparr>peopleInputElement := v\<rparr>\<rparr>\<rparr>"
| "dispatch P Submit s = submitHandler P s"
| "dispatch P (DragStart which k e) s = s"
| "dispatch P DragEnd s = s\<lparr>world := dragEndHandler (world s)\<rparr>"
| "dispatch P (DragOver which e) s = s\<lparr>world := snd (dragOverHandler which e (world s))\<rparr>"
| "dispatch P (Drop e) s =
     (case dropHandler e (world s) of Inl err \<Rightarrow> s | Inr w \<Rightarrow> s\<lparr>world := w\<rparr>)"
| "dispatch P (DragLeave which) s = s\<lparr>world := dragLeaveHandler which (world s)\<rparr>"
| "dispatch P CallGetInstance s = snd (getInstance s)"
| "dispatch P (CallAddProject t d n) s = (let (i, s1) = getInstance s in addProject P i t d n s1)"

definition run :: "platform \<Rightarrow> event list \<Rightarrow> page js \<Rightarrow> page js" where
  "run P es s = foldl (\<lambda>s e. dispatch P e s) s es"

text \<open>
  What holds of the page after the script has run and after every event: the Store is
  the one of \<open>projectState\<close>, its callbacks are those of the two lists, every project
  is Active, the Active list shows them all and the Finished list none.
\<close>

definition appInv :: "page js \<Rightarrow> bool" where
  "appInv s =
    (let w = world s; i = projectState w
     in instance' s = Some i \<and> allocated i s
      \<and> map body (listeners (objects s i)) =
           [projectsListener ListActive, projectsListener ListFinished]
      \<and> type' (activeProjectLists w) = ListActive
      \<and> type' (finishedProjectLists w) = ListFinished
      \<and> list_all (\<lambda>p. status p = Active) (projectsOf i s)
      \<and> assignedProjects (activeProjectLists w) = projectsOf i s
      \<and> map project (rows (activeProjectLists w)) = projectsOf i s
      \<and> assignedProjects (finishedProjectLists w) = []
      \<and> rows (finishedProjectLists w) = [])"

section \<open>The state store under callbacks of any kind\<close>

text \<open>
  The type \<open>Listener<T>\<close> admits any function, and app.ts puts three things in such a
  function's reach. The array it is handed is a shallow copy, \<open>this.projects.slice()\<close>:
  a new array whose elements are the Store's own \<open>Project\<close> objects, and the fields of
  a \<open>Project\<close> are public and writable. The Store is reached through the module's
  constant \<open>projectState\<close> and through \<open>ProjectState.getInstance()\<close>, so a callback can
  call \<open>addProject\<close> and \<open>addListener\<close> in its turn. And a callback can throw, which
  ends the loop of \<open>addProject\<close>, nothing being caught there. The loop itself,
  \<open>for (const listenerFunction of this.listeners)\<close>, reads \<open>this.listeners\<close> by index
  at every step, so a callback registered during a round is called in that round.

  The Store of the sections above is the Store as the page uses it, with callbacks
  that keep to the array they are handed and to their own state. This section models
  the Store again, for callbacks of any kind: a \<open>Project\<close> is an object at an address
  of a heap, an array holds addresses, and a callback is a program over the operations
  listed above.
\<close>

text \<open>
  How a call ends: it returns, or it throws, or the budget of nested calls and of steps
  of the loop is used up. \<open>OutOfFuel\<close> stands for a run that goes on beyond the budget
  (a callback that adds a project at every call never ends, short of the platform's
  limit on the stack). \<open>final\<close> is the state in which a call that ended has left the
  script.
\<close>

datatype 's outcome = Returned 's | Thrown 's | OutOfFuel

fun final :: "'s outcome \<Rightarrow> 's option" where
  "final (Returned s) = Some s"
| "final (Thrown s) = Some s"
| "final OutOfFuel = None"

text \<open>
  The body of a callback, as a program. \<open>Look k\<close> reads the contents of the array the
  callback was handed (the projects as they are now) and the callback's own state, and
  goes on as \<open>k\<close> says. \<open>Own g\<close> changes the callback's own state. \<open>WriteProject i g\<close>
  is an assignment to fields of \<open>items[i]\<close>, such as \<open>items[0].status = ...\<close>: it
  changes the object itself, and throws when the array has no element \<open>i\<close>.
  \<open>WriteArray g\<close> changes the handed array (push, pop, splice, an assignment to an
  index or to \<open>length\<close>). \<open>CallAddProject t d n k\<close> is \<open>projectState.addProject(t, d, n)\<close>
  inside \<open>try\<close>: \<open>k\<close> is told whether the call threw, and may throw again.
  \<open>CallAddListener i c\<close> registers a function of identity \<open>i\<close> and body \<open>c\<close>.
  A body works on the array of its own call and on the projects in it; what a function
  could do with a reference kept from an earlier call is not a program of this type.
\<close>

datatype 'w code =
    Return
  | Throw
  | Look "Project list \<Rightarrow> 'w \<Rightarrow> 'w code"
  | Own "'w \<Rightarrow> 'w" "'w code"
  | WriteProject nat "Project \<Rightarrow> Project" "'w code"
  | WriteArray "addr list \<Rightarrow> addr list" "'w code"
  | CallAddProject jsstring jsstring jsnum "bool \<Rightarrow> 'w code"
  | CallAddListener nat "'w code" "'w code"

record 'w callback =
  fnid :: nat
  prog :: "'w code"

text \<open>
  The state of the script with its one Store: the Store's fields \<open>listeners\<close> and
  \<open>projects\<close> (the address of its array), the \<open>Project\<close> objects and the arrays that
  have been allocated, the next free address, the number of calls of \<open>Math.random\<close>
  so far, a record of the calls of callbacks made so far (which function, the address
  of the array it was handed, the projects in it at the call), and the callbacks' own
  state.
\<close>

record 'w memory =
  listeners' :: "'w callback list"
  projects' :: addr
  heap :: "addr \<Rightarrow> Project"
  arrays' :: "addr \<Rightarrow> addr list"
  next_addr' :: addr
  random_calls' :: nat
  invocations' :: "(nat \<times> addr \<times> Project list) list"
  world' :: 'w

text \<open>\<open>addListener\<close>, lines 40 to 42.\<close>

definition addListener' :: "'w callback \<Rightarrow> 'w memory \<Rightarrow> 'w memory" where
  "addListener' listenerFunction s = s\<lparr>listeners' := listeners' s @ [listenerFunction]\<rparr>"

text \<open>The projects that the Store holds, as they are now.\<close>

definition projectsOf' :: "'w memory \<Rightarrow> Project list" where
  "projectsOf' s = map (heap s) (arrays' s (projects' s))"

text \<open>
  A callback's body runs on the array at \<open>a\<close> that it was handed. \<open>call\<close> is what
  \<open>addProject\<close> does when the body calls it.
\<close>

primrec exec :: "(jsstring \<Rightarrow> jsstring \<Rightarrow> jsnum \<Rightarrow> 'w memory \<Rightarrow> 'w memory outcome) \<Rightarrow>
    'w code \<Rightarrow> addr \<Rightarrow> 'w memory \<Rightarrow> 'w memory outcome" where
  "exec call Return a s = Returned s"
| "exec call Throw a s = Thrown s"
| "exec call (Look k) a s = exec call (k (map (heap s) (arrays' s a)) (world' s)) a s"
| "exec call (Own g c) a s = exec call c a (s\<lparr>world' := g (world' s)\<rparr>)"
| "exec call (WriteProject i g c) a s =
    (if i < length (arrays' s a)
     then exec call c a (s\<lparr>heap := (heap s)(arrays' s a ! i := g (heap s (arrays' s a ! i)))\<rparr>)
     else Thrown s)"
| "exec call (WriteArray g c) a s = exec call c a (s\<lparr>arrays' := (arrays' s)(a := g (arrays' s a))\<rparr>)"
| "exec call (CallAddProject t d n k) a s =
    (case call t d n s of
       Returned s' \<Rightarrow> exec call (k False) a s'
     | Thrown s' \<Rightarrow> exec call (k True) a s'
     | OutOfFuel \<Rightarrow> OutOfFuel)"
| "exec call (CallAddListener i c' c) a s = exec call c a (addListener' \<lparr>fnid = i, prog = c'\<rparr> s)"

text \<open>
  \<open>this.projects.slice()\<close> for the callback whose turn it is: a new array with the
  addresses that the Store's array holds now; the call is recorded.
\<close>

definition handOut :: "'w callback \<Rightarrow> 'w memory \<Rightarrow> addr \<times> 'w memory" where
  "handOut listenerFunction s =
    (let a = next_addr' s
     in (a, s\<lparr>arrays' := (arrays' s)(a := arrays' s (projects' s)),
               next_addr' := Suc a,
               invocations' := invocations' s @ [(fnid listenerFunction, a, projectsOf' s)]\<rparr>))"

text \<open>
  The loop of lines 72 to 74 from index \<open>i\<close> on: while \<open>this.listeners\<close>, as it is
  now, has an element \<open>i\<close>, that function is called on a slice taken now; a throw ends
  the loop and the call of \<open>addProject\<close>.
\<close>

primrec notify' :: "(jsstring \<Rightarrow> jsstring \<Rightarrow> jsnum \<Rightarrow> 'w memory \<Rightarrow> 'w memory outcome) \<Rightarrow>
    nat \<Rightarrow> nat \<Rightarrow> 'w memory \<Rightarrow> 'w memory outcome" where
  "notify' call 0 i s = (if i < length (listeners' s) then OutOfFuel else Returned s)"
| "notify' call (Suc fuel) i s =
    (if i < length (listeners' s)
     then (let (a, s1) = handOut (listeners' s ! i) s
           in case exec call (prog (listeners' s ! i)) a s1 of
                Returned s2 \<Rightarrow> notify' call fuel (Suc i) s2
              | Thrown s2 \<Rightarrow> Thrown s2
              | OutOfFuel \<Rightarrow> OutOfFuel)
     else Returned s)"

text \<open>
  Lines 63 to 71: the new \<open>Project\<close>, with the string of \<open>Math.random()\<close> as its id
  and the status Active, is allocated and pushed on the Store's array.
\<close>

definition push :: "platform \<Rightarrow> jsstring \<Rightarrow> jsstring \<Rightarrow> jsnum \<Rightarrow> 'w memory \<Rightarrow> 'w memory" where
  "push P t d numOfPeople s =
    (let p = next_addr' s
     in s\<lparr>heap := (heap s)(p := \<lparr>id' = randomString P (random_calls' s), title = t,
                                  description = d, people = numOfPeople, status = Active\<rparr>),
          next_addr' := Suc p,
          random_calls' := Suc (random_calls' s),
          arrays' := (arrays' s)(projects' s := arrays' s (projects' s) @ [p])\<rparr>)"

text \<open>
  \<open>addProject\<close>, lines 62 to 75. The budget bounds the depth of the calls of
  \<open>addProject\<close> inside callbacks and the number of steps of each loop.
\<close>

primrec addProject' :: "platform \<Rightarrow> nat \<Rightarrow> jsstring \<Rightarrow> jsstring \<Rightarrow> jsnum \<Rightarrow> 'w memory \<Rightarrow>
    'w memory outcome" where
  "addProject' P 0 t d numOfPeople s = OutOfFuel"
| "addProject' P (Suc fuel) t d numOfPeople s =
    notify' (addProject' P fuel) (Suc fuel) 0 (push P t d numOfPeople s)"

text \<open>
  What a client does with the Store, one call after the other; a call that threw is
  followed by the next call (the client catches, or the next call comes from another
  event), one that does not end is followed by nothing.
\<close>

datatype 'w call' = AddListener' "'w callback" | AddProject' jsstring jsstring jsnum

fun perform' :: "platform \<Rightarrow> nat \<Rightarrow> 'w call' \<Rightarrow> 'w memory \<Rightarrow> 'w memory outcome" where
  "perform' P fuel (AddListener' f) s = Returned (addListener' f s)"
| "perform' P fuel (AddProject' t d n) s = addProject' P fuel t d n s"

fun performAll' :: "platform \<Rightarrow> nat \<Rightarrow> 'w call' list \<Rightarrow> 'w memory \<Rightarrow> 'w memory option" where
  "performAll' P fuel [] s = Some s"
| "performAll' P fuel (c # cs) s =
    (case final (perform' P fuel c s) of
       None \<Rightarrow> None
     | Some s' \<Rightarrow> performAll' P fuel cs s')"

text \<open>
  The script once the Store has been created: no callback, the empty array at
  address 0.
\<close>

definition start' :: "'w \<Rightarrow> 'w memory" where
  "start' w = \<lparr>listeners' = [], projects' = 0,
               heap = (\<lambda>a. \<lparr>id' = [], title = [], description = [], people = NaN, status = Active\<rparr>),
               arrays' = (\<lambda>a. []), next_addr' = Suc 0, random_calls' = 0, invocations' = [],
               world' = w\<rparr>"


text \<open>
  Every assignment to fields of a project that a body holds, the bodies of the functions
  it registers included, satisfies \<open>ok\<close>; and a call of the client registers such
  a body, if it registers one.
\<close>

primrec writes :: "((Project \<Rightarrow> Project) \<Rightarrow> bool) \<Rightarrow> 'w code \<Rightarrow> bool" where
  "writes ok Return = True"
| "writes ok Throw = True"
| "writes ok (Look k) = (\<forall>items w. writes ok (k items w))"
| "writes ok (Own g c) = writes ok c"
| "writes ok (WriteProject i g c) = (ok g \<and> writes ok c)"
| "writes ok (WriteArray g c) = writes ok c"
| "writes ok (CallAddProject t d n k) = (\<forall>b. writes ok (k b))"
| "writes ok (CallAddListener i c' c) = (writes ok c' \<and> writes ok c)"

definition registers :: "((Project \<Rightarrow> Project) \<Rightarrow> bool) \<Rightarrow> 'w call' \<Rightarrow> bool" where
  "registers ok c = (case c of AddListener' f \<Rightarrow> writes ok (prog f) | AddProject' t d n \<Rightarrow> True)"

text \<open>An assignment that leaves the status, or the id, of the project as it was.\<close>

definition keepsStatus :: "(Project \<Rightarrow> Project) \<Rightarrow> bool" where
  "keepsStatus g = (\<forall>p. status (g p) = status p)"

definition keepsId :: "(Project \<Rightarrow> Project) \<Rightarrow> bool" where
  "keepsId g = (\<forall>p. id' (g p) = id' p)"

text \<open>
  What the calls of a client keep true of the Store created by \<open>start'\<close>. With callbacks
  that do not write a status: every project of the Store is Active. With callbacks that
  do not write an id: the ids are the strings of \<open>Math.random\<close> in the order of
  creation. With callbacks of any kind: the Store's array at \<open>pa\<close> begins with \<open>xs\<close>,
  and no array handed out from call \<open>m\<close> of the record on is the Store's.
\<close>

definition storeActive :: "'w memory \<Rightarrow> bool" where
  "storeActive s =
    (projects' s = 0 \<and> 0 < next_addr' s
     \<and> list_all (\<lambda>f. writes keepsStatus (prog f)) (listeners' s)
     \<and> list_all (\<lambda>a. status (heap s a) = Active) (arrays' s 0))"

definition storeIds :: "platform \<Rightarrow> 'w memory \<Rightarrow> bool" where
  "storeIds P s =
    (projects' s = 0 \<and> 0 < next_addr' s
     \<and> list_all (\<lambda>f. writes keepsId (prog f)) (listeners' s)
     \<and> list_all (\<lambda>a. a < next_addr' s) (arrays' s 0)
     \<and> map (\<lambda>a. id' (heap s a)) (arrays' s 0) = map (randomString P) [0..<random_calls' s])"

definition storeGrows :: "addr \<Rightarrow> addr list \<Rightarrow> nat \<Rightarrow> 'w memory \<Rightarrow> bool" where
  "storeGrows pa xs m s =
    (projects' s = pa \<and> pa < next_addr' s
     \<and> take (length xs) (arrays' s pa) = xs
     \<and> list_all (\<lambda>c. fst (snd c) \<noteq> pa) (drop m (invocations' s)))"







section \<open>A platform and a Store for the examples\<close>

text \<open>
  \<open>decimalToNumber\<close> is the unary \<open>+\<close> on the strings that, once trimmed, are empty or
  made of at most fifteen decimal digits; the other strings, which the examples do not
  use, it sends to NaN. \<open>fives k\<close> is \<open>0.5\<close>, \<open>0.55\<close>, \<open>0.555\<close>, ...: the strings
  of a \<open>Math.random\<close> that never returns a number twice.
\<close>

definition isDigit :: "16 word \<Rightarrow> bool" where
  "isDigit c = (0x30 \<le> c \<and> c \<le> 0x39)"

definition decimalToNumber :: "jsstring \<Rightarrow> jsnum" where
  "decimalToNumber str =
    (let t = trim str
     in if list_all isDigit t \<and> length t \<le> 15
        then Finite (of_nat (foldl (\<lambda>acc c. 10 * acc + (unat c - 48)) 0 t))
        else NaN)"

definition fives :: "nat \<Rightarrow> jsstring" where
  "fives k = utf16 ''0.'' @ replicate (Suc k) 0x35"

definition examplePlatform :: platform where
  "examplePlatform = \<lparr>toNumber = decimalToNumber, randomString = fives\<rparr>"

text \<open>
  A callback that counts its calls in a number of its own and empties the array it is
  handed.
\<close>

definition emptying :: "nat Listener" where
  "emptying = \<lparr>ident = 10, body = (\<lambda>items w. ([], Suc w))\<rparr>"

text \<open>
  A platform whose \<open>Math.random\<close> returns one half at every call, and the Store after
  two additions on it.
\<close>

definition repeating :: platform where
  "repeating = \<lparr>toNumber = decimalToNumber, randomString = (\<lambda>k. utf16 ''0.5'')\<rparr>"

definition twoProjects :: "unit js" where
  "twoProjects = performAll repeating
     [AddProject (utf16 ''a'') (utf16 ''first one'') (Finite 1),
      AddProject (utf16 ''b'') (utf16 ''second one'') (Finite 2)] (start ())"

text \<open>The page once the user has typed a title, a description and a number of people.\<close>

definition typed :: "jsstring \<Rightarrow> jsstring \<Rightarrow> jsstring \<Rightarrow> page js" where
  "typed t d p = run examplePlatform [InputTitle t, InputDescription d, InputPeople p] main"




definition reenters :: "nat callback" where
  "reenters = \<lparr>fnid = 1, prog = Look (\<lambda>items w. if length items = 1
      then CallAddProject (utf16 ''x'') (utf16 ''second'') (Finite 2) (\<lambda>threw. Return)
      else Return)\<rparr>"

definition finisher :: "nat callback" where
  "finisher = \<lparr>fnid = 3, prog = WriteProject 0 (\<lambda>p. p\<lparr>status := Finished\<rparr>) Return\<rparr>"

definition retitler :: "nat callback" where
  "retitler = \<lparr>fnid = 5, prog = WriteProject 0 (\<lambda>p. p\<lparr>title := utf16 ''renamed''\<rparr>) Return\<rparr>"

definition relabeller :: "nat callback" where
  "relabeller = \<lparr>fnid = 6, prog = WriteProject 0 (\<lambda>p. p\<lparr>id' := utf16 ''0.55''\<rparr>) Return\<rparr>"

definition thrower :: "nat callback" where
  "thrower = \<lparr>fnid = 4, prog = Throw\<rparr>"





definition busy :: "nat call' list" where
  "busy = [AddListener' reenters, AddListener' finisher,
           AddProject' (utf16 ''a'') (utf16 ''first'') (Finite 1)]"

definition calm :: "nat call' list" where
  "calm = [AddListener' reenters, AddListener' retitler,
           AddProject' (utf16 ''a'') (utf16 ''first'') (Finite 1)]"

section \<open>Properties of the validator\<close>

lemma js_lt_irrefl: "\<not> js_lt a a"
  by (cases a) simp_all

lemma validateForm_number:
  "validateForm \<lparr>value' = Num v, required = rq, minLength = ml, maxLength = xl,
                  min' = Some lo, max' = Some hi\<rparr> = (js_gt v lo \<and> js_lt v hi)"
  by (cases ml; cases xl) (auto simp: validateForm_def)

lemma validateForm_string_maxLength:
  "validateForm \<lparr>value' = Str s, required = rq, minLength = ml, maxLength = Some b,
                  min' = lo, max' = hi\<rparr> =
   (validateForm \<lparr>value' = Str s, required = rq, minLength = ml, maxLength = None,
                   min' = lo, max' = hi\<rparr> \<and> js_gt (lengthOf s) b)"
  by (cases ml; cases lo; cases hi) (auto simp: validateForm_def)

lemma validateForm_string_minLength:
  "validateForm \<lparr>value' = Str s, required = rq, minLength = Some b, maxLength = xl,
                  min' = lo, max' = hi\<rparr> =
   (validateForm \<lparr>value' = Str s, required = rq, minLength = None, maxLength = xl,
                   min' = lo, max' = hi\<rparr> \<and> js_gt (lengthOf s) b)"
  by (cases xl; cases lo; cases hi) (auto simp: validateForm_def)

text \<open>
  C3. A number checked against a lower and an upper bound passes exactly when it is
  strictly greater than the lower bound and strictly less than the upper bound, whatever
  the other fields of the rule; on finite numbers that is the strict order of the
  rationals. A number equal to either bound is rejected, and
  \<open>validate({value: 5, min: 0, max: 5})\<close> is false.
\<close>

theorem validateForm_min_max_strict:
  "validateForm \<lparr>value' = Num v, required = rq, minLength = ml, maxLength = xl,
                  min' = Some lo, max' = Some hi\<rparr> = (js_gt v lo \<and> js_lt v hi)
   \<and> validateForm \<lparr>value' = Num (Finite x), required = rq, minLength = ml, maxLength = xl,
                    min' = Some (Finite a), max' = Some (Finite b)\<rparr> = (a < x \<and> x < b)
   \<and> \<not> validateForm \<lparr>value' = Num lo, required = rq, minLength = ml, maxLength = xl,
                      min' = Some lo, max' = Some hi\<rparr>
   \<and> \<not> validateForm \<lparr>value' = Num hi, required = rq, minLength = ml, maxLength = xl,
                      min' = Some lo, max' = Some hi\<rparr>
   \<and> \<not> validateForm \<lparr>value' = Num (Finite 5), required = None, minLength = None,
                      maxLength = None, min' = Some (Finite 0), max' = Some (Finite 5)\<rparr>"
  by (simp add: validateForm_number js_gt_def js_lt_irrefl)

text \<open>
  C4. On a string, the \<open>maxLength\<close> check adds to the other checks of the rule the
  condition that the length is strictly greater than the bound, the comparison that the
  \<open>minLength\<close> check makes too. So a string no longer than \<open>maxLength\<close> is rejected:
  with \<open>maxLength\<close> 5, \<open>abc\<close> fails and \<open>abcdefgh\<close> passes.
\<close>

theorem validateForm_maxLength_inverted:
  "validateForm \<lparr>value' = Str s, required = rq, minLength = ml, maxLength = Some (Finite b),
                  min' = lo, max' = hi\<rparr> =
     (validateForm \<lparr>value' = Str s, required = rq, minLength = ml, maxLength = None,
                     min' = lo, max' = hi\<rparr> \<and> b < of_nat (length s))
   \<and> validateForm \<lparr>value' = Str s, required = rq, minLength = Some (Finite a), maxLength = xl,
                    min' = lo, max' = hi\<rparr> =
     (validateForm \<lparr>value' = Str s, required = rq, minLength = None, maxLength = xl,
                     min' = lo, max' = hi\<rparr> \<and> a < of_nat (length s))
   \<and> validateForm \<lparr>value' = Str s, required = None, minLength = None, maxLength = Some (Finite b),
                    min' = None, max' = None\<rparr> = (b < of_nat (length s))
   \<and> \<not> validateForm \<lparr>value' = Str (utf16 ''abc''), required = None, minLength = None,
                      maxLength = Some (Finite 5), min' = None, max' = None\<rparr>
   \<and> validateForm \<lparr>value' = Str (utf16 ''abcdefgh''), required = None, minLength = None,
                    maxLength = Some (Finite 5), min' = None, max' = None\<rparr>"
proof -
  have cmp: "js_gt (lengthOf s) (Finite c) = (c < of_nat (length s))" for s c
    by (simp add: js_gt_def lengthOf_def)
  have none: "validateForm \<lparr>value' = Str s, required = None, minLength = None,
      maxLength = None, min' = None, max' = None\<rparr>" for s
    by (simp add: validateForm_def)
  show ?thesis
    by (simp add: validateForm_string_maxLength validateForm_string_minLength cmp none utf16_def)
qed

section \<open>Properties of the Store\<close>

text \<open>One call of a callback, whatever it does to the array it is handed.\<close>

lemma callListener_fields:
  "objects (callListener this l s) = objects s"
  "instance' (callListener this l s) = instance' s"
  "random_calls (callListener this l s) = random_calls s"
  "next_addr (callListener this l s) = Suc (next_addr s)"
  "world (callListener this l s) = snd (body l (projectsOf this s) (world s))"
  "invocations (callListener this l s) =
     invocations s @ [(ident l, next_addr s, projectsOf this s)]"
  by (simp_all add: callListener_def slice_def projectsOf_def Let_def split: prod.splits)

lemma callListener_arrays:
  "a \<noteq> next_addr s \<Longrightarrow> arrays (callListener this l s) a = arrays s a"
  by (simp add: callListener_def slice_def Let_def split: prod.splits)

lemma callListener_allocated:
  "allocated this s \<Longrightarrow> allocated this (callListener this l s)"
  by (simp add: allocated_def callListener_fields)

lemma callListener_projectsOf:
  "allocated this s \<Longrightarrow> projectsOf this (callListener this l s) = projectsOf this s"
  by (simp add: allocated_def projectsOf_def callListener_fields callListener_arrays)

text \<open>
  What a round of notification leaves behind, whatever the callbacks do to the arrays
  they are handed: the Store's array and the objects are as before, the callbacks were
  called in the order of the list, each with a new array holding the Store's sequence.
\<close>

lemma notify_fields:
  "objects (notify this ls s) = objects s"
  "instance' (notify this ls s) = instance' s"
  "random_calls (notify this ls s) = random_calls s"
  "next_addr (notify this ls s) = next_addr s + length ls"
  by (induction ls arbitrary: s) (simp_all add: callListener_fields)

lemma notify_arrays:
  "a < next_addr s \<Longrightarrow> arrays (notify this ls s) a = arrays s a"
  by (induction ls arbitrary: s) (simp_all add: callListener_fields callListener_arrays)

lemma notify_projectsOf:
  "allocated this s \<Longrightarrow> projectsOf this (notify this ls s) = projectsOf this s"
  by (simp add: allocated_def projectsOf_def notify_fields notify_arrays)

lemma notify_allocated:
  "allocated this s \<Longrightarrow> allocated this (notify this ls s)"
  by (simp add: allocated_def notify_fields)

lemma notify_world:
  "allocated this s \<Longrightarrow>
     world (notify this ls s) =
       foldl (\<lambda>w l. snd (body l (projectsOf this s) w)) (world s) ls"
proof (induction ls arbitrary: s)
  case Nil
  then show ?case by simp
next
  case (Cons l ls)
  show ?case
    using Cons.IH [OF callListener_allocated [OF Cons.prems]]
    by (simp add: callListener_fields callListener_projectsOf [OF Cons.prems])
qed

lemma addProject_fields:
  "objects (addProject P this t d n s) = objects s"
  "instance' (addProject P this t d n s) = instance' s"
  "random_calls (addProject P this t d n s) = Suc (random_calls s)"
  "next_addr (addProject P this t d n s) = next_addr s + length (listeners (objects s this))"
  by (simp_all add: addProject_def Let_def notify_fields)

lemma addProject_projectsOf:
  assumes "allocated this s"
  shows "projectsOf this (addProject P this t d n s) = projectsOf this s @ [newProject P t d n s]"
proof -
  define s1 where "s1 = s\<lparr>random_calls := Suc (random_calls s),
      arrays := (arrays s)(projects (objects s this) :=
        arrays s (projects (objects s this)) @ [newProject P t d n s])\<rparr>"
  have al: "allocated this s1"
    using assms by (simp add: allocated_def s1_def)
  have "projectsOf this (notify this (listeners (objects s1 this)) s1) = projectsOf this s1"
    by (rule notify_projectsOf [OF al])
  then show ?thesis
    by (simp add: addProject_def Let_def s1_def projectsOf_def)
qed

lemma addProject_allocated:
  "allocated this s \<Longrightarrow> allocated this (addProject P this t d n s)"
  by (simp add: allocated_def addProject_fields)

lemma addProject_arrays:
  "a < next_addr s \<Longrightarrow> a \<noteq> projects (objects s this) \<Longrightarrow>
     arrays (addProject P this t d n s) a = arrays s a"
  by (simp add: addProject_def Let_def notify_arrays)

lemma addProject_world:
  assumes "allocated this s"
  shows "world (addProject P this t d n s) =
     foldl (\<lambda>w l. snd (body l (projectsOf this s @ [newProject P t d n s]) w)) (world s)
           (listeners (objects s this))"
proof -
  define s1 where "s1 = s\<lparr>random_calls := Suc (random_calls s),
      arrays := (arrays s)(projects (objects s this) :=
        arrays s (projects (objects s this)) @ [newProject P t d n s])\<rparr>"
  have al: "allocated this s1"
    using assms by (simp add: allocated_def s1_def)
  have "world (notify this (listeners (objects s1 this)) s1) =
     foldl (\<lambda>w l. snd (body l (projectsOf this s1) w)) (world s1) (listeners (objects s1 this))"
    by (rule notify_world [OF al])
  then show ?thesis
    by (simp add: addProject_def Let_def s1_def projectsOf_def)
qed

lemma getInstance_Some: "instance' s = Some i \<Longrightarrow> getInstance s = (i, s)"
  by (simp add: getInstance_def)

lemma getInstance_None:
  assumes "instance' s = None"
  shows "fst (getInstance s) = next_addr s"
    "instance' (snd (getInstance s)) = Some (next_addr s)"
    "projectsOf (next_addr s) (snd (getInstance s)) = []"
    "listeners (objects (snd (getInstance s)) (next_addr s)) = []"
    "allocated (next_addr s) (snd (getInstance s))"
    "random_calls (snd (getInstance s)) = random_calls s"
    "invocations (snd (getInstance s)) = invocations s"
    "world (snd (getInstance s)) = world s"
  using assms
  by (simp_all add: getInstance_def new_ProjectState_def Let_def projectsOf_def allocated_def)

lemma getInstance_instance: "instance' (snd (getInstance s)) = Some (fst (getInstance s))"
  by (cases "instance' s") (simp_all add: getInstance_Some getInstance_None)

lemma getInstance_allocated:
  "storeAllocated s \<Longrightarrow> allocated (fst (getInstance s)) (snd (getInstance s))"
  by (cases "instance' s") (simp_all add: getInstance_Some getInstance_None storeAllocated_def)

lemma addListener_fields:
  "instance' (addListener this l s) = instance' s"
  "listeners (objects (addListener this l s) this) = listeners (objects s this) @ [l]"
  "projects (objects (addListener this l s) i) = projects (objects s i)"
  "arrays (addListener this l s) = arrays s"
  "next_addr (addListener this l s) = next_addr s"
  "random_calls (addListener this l s) = random_calls s"
  "invocations (addListener this l s) = invocations s"
  "world (addListener this l s) = world s"
  by (simp_all add: addListener_def)

lemma addListener_allocated: "allocated i (addListener this l s) = allocated i s"
  by (simp add: allocated_def addListener_fields)

lemma addListener_projectsOf: "projectsOf i (addListener this l s) = projectsOf i s"
  by (simp add: projectsOf_def addListener_fields)

lemma perform_instance:
  "instance' s = Some i \<Longrightarrow> instance' (perform P c s) = Some i"
  by (cases c) (simp_all add: getInstance_Some addListener_fields addProject_fields)

lemma perform_allocated:
  "instance' s = Some i \<Longrightarrow> allocated i s \<Longrightarrow> allocated i (perform P c s)"
  by (cases c) (simp_all add: getInstance_Some addListener_allocated addProject_allocated)

lemma perform_listeners:
  "instance' s = Some i \<Longrightarrow>
     listeners (objects (perform P c s) i) = listeners (objects s i) @ registered [c]"
  by (cases c) (simp_all add: getInstance_Some addListener_fields addProject_fields registered_def)

lemma registered_Cons: "registered (c # cs) = registered [c] @ registered cs"
  by (simp add: registered_def)

lemma performAll_Cons: "performAll P (c # cs) s = performAll P cs (perform P c s)"
  by (simp add: performAll_def)

lemma performAll_Nil: "performAll P [] s = s"
  by (simp add: performAll_def)

lemma performAll_store:
  "instance' s = Some i \<Longrightarrow> allocated i s \<Longrightarrow>
     instance' (performAll P cs s) = Some i \<and>
     allocated i (performAll P cs s) \<and>
     listeners (objects (performAll P cs s) i) = listeners (objects s i) @ registered cs"
proof (induction cs arbitrary: s)
  case Nil
  then show ?case by (simp add: performAll_Nil registered_def)
next
  case (Cons c cs)
  have i: "instance' (perform P c s) = Some i"
    using Cons.prems by (simp add: perform_instance)
  have a: "allocated i (perform P c s)"
    using Cons.prems by (simp add: perform_allocated)
  show ?case
    using Cons.IH [OF i a] Cons.prems(1)
    by (simp add: performAll_Cons perform_listeners registered_Cons [of c cs])
qed

lemma performAll_getInstance:
  "storeAllocated s \<Longrightarrow>
     instance' (performAll P cs (snd (getInstance s))) = Some (fst (getInstance s)) \<and>
     allocated (fst (getInstance s)) (performAll P cs (snd (getInstance s)))"
  using performAll_store [OF getInstance_instance getInstance_allocated, of s P cs] by simp

text \<open>
  C6. \<open>getInstance\<close> returns one Store: the first call creates it, empty; a call made
  later, whatever calls of the Store come between, returns the same reference and
  changes nothing. So a project added through the reference of the first call is the
  last of the sequence read through the reference of the second.
\<close>

theorem getInstance_singleton:
  assumes "storeAllocated s"
  shows "let (r1, s1) = getInstance s;
             s2 = performAll P cs s1;
             (r2, s3) = getInstance s2;
             s4 = addProject P r1 t d n s3
         in r2 = r1 \<and> s3 = s2 \<and> instance' s1 = Some r1
          \<and> (case instance' s of
                None \<Rightarrow> r1 = next_addr s \<and> projectsOf r1 s1 = [] \<and> listeners (objects s1 r1) = []
              | Some i \<Rightarrow> r1 = i \<and> s1 = s)
          \<and> projectsOf r2 s4 = projectsOf r1 s3 @ [newProject P t d n s3]
          \<and> last (projectsOf r2 s4) = newProject P t d n s3
          \<and> fst (getInstance s4) = r1"
proof -
  define r1 where "r1 = fst (getInstance s)"
  define s1 where "s1 = snd (getInstance s)"
  define s2 where "s2 = performAll P cs s1"
  have g1: "getInstance s = (r1, s1)"
    by (simp add: r1_def s1_def)
  have i1: "instance' s1 = Some r1"
    by (simp add: r1_def s1_def getInstance_instance)
  have i2: "instance' s2 = Some r1" and a2: "allocated r1 s2"
    using performAll_getInstance [OF assms, of P cs] by (simp_all add: s2_def s1_def r1_def)
  have g2: "getInstance s2 = (r1, s2)"
    by (rule getInstance_Some [OF i2])
  have first: "(case instance' s of
       None \<Rightarrow> r1 = next_addr s \<and> projectsOf r1 s1 = [] \<and> listeners (objects s1 r1) = []
     | Some i \<Rightarrow> r1 = i \<and> s1 = s)"
    by (cases "instance' s") (simp_all add: r1_def s1_def getInstance_None getInstance_Some)
  have seq: "projectsOf r1 (addProject P r1 t d n s2) = projectsOf r1 s2 @ [newProject P t d n s2]"
    by (rule addProject_projectsOf [OF a2])
  have g4: "fst (getInstance (addProject P r1 t d n s2)) = r1"
    using i2 by (simp add: getInstance_Some addProject_fields)
  show ?thesis
    using i1 first seq g4 by (simp add: g1 g2 s2_def [symmetric])
qed

theorem getInstance_singleton_witness:
  "storeAllocated (start (0::nat)) \<and>
   fst (getInstance (performAll examplePlatform [AddListener emptying] (snd (getInstance (start 0))))) =
     fst (getInstance (start (0::nat))) \<and>
   last (projectsOf
     (fst (getInstance (performAll examplePlatform [AddListener emptying] (snd (getInstance (start 0))))))
     (addProject examplePlatform (fst (getInstance (start (0::nat)))) (utf16 ''a'') (utf16 ''first one'')
        (Finite 1) (performAll examplePlatform [AddListener emptying] (snd (getInstance (start 0)))))) =
     \<lparr>id' = utf16 ''0.5'', title = utf16 ''a'', description = utf16 ''first one'',
      people = Finite 1, status = Active\<rparr>"
proof -
  define s2 where "s2 = performAll examplePlatform [AddListener emptying]
      (snd (getInstance (start (0::nat))))"
  have h: "storeAllocated (start (0::nat))"
    by (simp add: storeAllocated_def start_def)
  have rc: "random_calls s2 = 0"
    by (simp add: s2_def performAll_def getInstance_def new_ProjectState_def start_def
        addListener_def Let_def)
  have np: "newProject examplePlatform (utf16 ''a'') (utf16 ''first one'') (Finite 1) s2 =
      \<lparr>id' = utf16 ''0.5'', title = utf16 ''a'', description = utf16 ''first one'',
       people = Finite 1, status = Active\<rparr>"
    by (simp add: newProject_def rc examplePlatform_def fives_def utf16_def)
  note single = getInstance_singleton [OF h, of examplePlatform "[AddListener emptying]"
      "utf16 ''a''" "utf16 ''first one''" "Finite 1", unfolded Let_def case_prod_unfold,
      folded s2_def]
  from single have same: "fst (getInstance s2) = fst (getInstance (start (0::nat)))"
    by (rule conjunct1)
  from single have unchanged: "snd (getInstance s2) = s2"
    by blast
  from single have "last (projectsOf (fst (getInstance s2))
      (addProject examplePlatform (fst (getInstance (start (0::nat)))) (utf16 ''a'')
         (utf16 ''first one'') (Finite 1) (snd (getInstance s2)))) =
      newProject examplePlatform (utf16 ''a'') (utf16 ''first one'') (Finite 1) (snd (getInstance s2))"
    by blast
  then have seen: "last (projectsOf (fst (getInstance s2))
      (addProject examplePlatform (fst (getInstance (start (0::nat)))) (utf16 ''a'')
         (utf16 ''first one'') (Finite 1) s2)) =
      \<lparr>id' = utf16 ''0.5'', title = utf16 ''a'', description = utf16 ''first one'',
       people = Finite 1, status = Active\<rparr>"
    by (simp only: unchanged np)
  show ?thesis
    unfolding s2_def [symmetric] using h same seen by (intro conjI)
qed

text \<open>
  C8 as stated fails where \<open>Math.random().toString()\<close> gives a string a second time,
  which nothing in \<open>addProject\<close> looks for: two different projects of the Store then
  have one id.
\<close>

theorem ids_unique_counterexample:
  "length (projectsOf 0 twoProjects) = 2 \<and>
   projectsOf 0 twoProjects ! 0 \<noteq> projectsOf 0 twoProjects ! 1 \<and>
   id' (projectsOf 0 twoProjects ! 0) = id' (projectsOf 0 twoProjects ! 1) \<and>
   \<not> distinct (map id' (projectsOf 0 twoProjects))"
proof -
  have "projectsOf 0 twoProjects =
     [\<lparr>id' = utf16 ''0.5'', title = utf16 ''a'', description = utf16 ''first one'',
       people = Finite 1, status = Active\<rparr>,
      \<lparr>id' = utf16 ''0.5'', title = utf16 ''b'', description = utf16 ''second one'',
       people = Finite 2, status = Active\<rparr>]"
    by (simp add: twoProjects_def performAll_def getInstance_def new_ProjectState_def start_def
        addProject_def newProject_def projectsOf_def repeating_def Let_def)
  then show ?thesis
    by (simp add: utf16_def)
qed

section \<open>Properties of the Store under callbacks of any kind\<close>

text \<open>
  A call that ends within a budget ends the same way, in the same state, within every
  larger one: the budget decides how far a run is followed, and nothing else.
\<close>

lemma exec_more_fuel:
  assumes call: "\<And>t d n s. call t d n s \<noteq> OutOfFuel \<Longrightarrow> call2 t d n s = call t d n s"
  shows "exec call c a s \<noteq> OutOfFuel \<Longrightarrow> exec call2 c a s = exec call c a s"
proof (induction c arbitrary: s)
  case (Look k)
  then show ?case
    using Look.IH [of "k (map (heap s) (arrays' s a))" "k (map (heap s) (arrays' s a)) (world' s)" s]
    by simp
next
  case (WriteProject i g c)
  then show ?case
    by (cases "i < length (arrays' s a)") simp_all
next
  case (CallAddProject t d n k)
  show ?case
  proof (cases "call t d n s")
    case OutOfFuel
    then show ?thesis
      using CallAddProject.prems by simp
  next
    case (Returned s1)
    then have "call2 t d n s = Returned s1"
      using call [of t d n s] by simp
    then show ?thesis
      using CallAddProject.IH [of "k False" s1] CallAddProject.prems Returned by simp
  next
    case (Thrown s1)
    then have "call2 t d n s = Thrown s1"
      using call [of t d n s] by simp
    then show ?thesis
      using CallAddProject.IH [of "k True" s1] CallAddProject.prems Thrown by simp
  qed
qed simp_all

lemma notify'_more_fuel:
  assumes call: "\<And>t d n s. call t d n s \<noteq> OutOfFuel \<Longrightarrow> call2 t d n s = call t d n s"
  shows "notify' call fuel i s \<noteq> OutOfFuel \<Longrightarrow> fuel \<le> fuel2 \<Longrightarrow>
     notify' call2 fuel2 i s = notify' call fuel i s"
proof (induction fuel arbitrary: fuel2 i s)
  case 0
  then show ?case
    by (cases fuel2) (simp_all split: if_splits)
next
  case (Suc fuel)
  obtain k where k: "fuel2 = Suc k" and le: "fuel \<le> k"
    using Suc.prems(2) by (cases fuel2) simp_all
  show ?case
  proof (cases "i < length (listeners' s)")
    case False
    then show ?thesis by (simp add: k)
  next
    case True
    define f where "f = listeners' s ! i"
    define a where "a = fst (handOut f s)"
    define s1 where "s1 = snd (handOut f s)"
    have step: "notify' c (Suc m) i s =
        (case exec c (prog f) a s1 of
           Returned s2 \<Rightarrow> notify' c m (Suc i) s2
         | Thrown s2 \<Rightarrow> Thrown s2
         | OutOfFuel \<Rightarrow> OutOfFuel)" for c m
      using True by (simp add: f_def a_def s1_def case_prod_unfold Let_def)
    have ne: "exec call (prog f) a s1 \<noteq> OutOfFuel"
      using Suc.prems(1) unfolding step by (auto split: outcome.splits)
    have ex: "exec call2 (prog f) a s1 = exec call (prog f) a s1"
      by (rule exec_more_fuel [OF call ne])
    show ?thesis
    proof (cases "exec call (prog f) a s1")
      case (Returned s2)
      have "notify' call fuel (Suc i) s2 \<noteq> OutOfFuel"
        using Suc.prems(1) unfolding step by (simp add: Returned)
      then have "notify' call2 k (Suc i) s2 = notify' call fuel (Suc i) s2"
        using le by (rule Suc.IH)
      then show ?thesis
        unfolding k step ex by (simp add: Returned)
    next
      case (Thrown s2)
      then show ?thesis
        unfolding k step ex by simp
    next
      case OutOfFuel
      then show ?thesis
        using ne by simp
    qed
  qed
qed

lemma addProject'_more_fuel:
  fixes s :: "'w memory"
  shows "addProject' P fuel t d n s \<noteq> OutOfFuel \<Longrightarrow> fuel \<le> fuel2 \<Longrightarrow>
     addProject' P fuel2 t d n s = addProject' P fuel t d n s"
proof (induction fuel arbitrary: fuel2 t d n s)
  case 0
  then show ?case by simp
next
  case (Suc fuel)
  obtain k where k: "fuel2 = Suc k" and le: "fuel \<le> k"
    using Suc.prems(2) by (cases fuel2) simp_all
  have nested: "addProject' P k t d n s = addProject' P fuel t d n s"
    if "addProject' P fuel t d n s \<noteq> OutOfFuel" for t d n and s :: "'w memory"
    using that le by (rule Suc.IH)
  have "notify' (addProject' P k) (Suc k) 0 (push P t d n s) =
      notify' (addProject' P fuel) (Suc fuel) 0 (push P t d n s)"
    using Suc.prems(1) le
    by (intro notify'_more_fuel nested) simp_all
  then show ?case
    by (simp add: k)
qed

lemma performAll'_more_fuel:
  "performAll' P fuel cs s = Some s' \<Longrightarrow> fuel \<le> fuel2 \<Longrightarrow> performAll' P fuel2 cs s = Some s'"
proof (induction cs arbitrary: s)
  case Nil
  then show ?case by simp
next
  case (Cons c cs)
  from Cons.prems(1) obtain s1 where s1: "final (perform' P fuel c s) = Some s1"
    and rest: "performAll' P fuel cs s1 = Some s'"
    by (auto split: option.splits)
  have "perform' P fuel c s \<noteq> OutOfFuel"
    using s1 by auto
  then have "perform' P fuel2 c s = perform' P fuel c s"
  proof (cases c)
    case (AddListener' f)
    then show ?thesis by simp
  next
    case (AddProject' t d n)
    assume "perform' P fuel c s \<noteq> OutOfFuel"
    then have "addProject' P fuel t d n s \<noteq> OutOfFuel"
      by (simp add: AddProject')
    then have "addProject' P fuel2 t d n s = addProject' P fuel t d n s"
      using Cons.prems(2) by (rule addProject'_more_fuel)
    then show ?thesis
      by (simp add: AddProject')
  qed
  then show ?case
    using s1 Cons.IH [OF rest Cons.prems(2)] by simp
qed

text \<open>
  An invariant of the state that the Store's own steps keep is kept by a callback's
  body, by the loop and by \<open>addProject\<close>, whatever the callbacks do (they may call the
  Store, register functions and throw), as long as their assignments to fields of
  projects satisfy \<open>ok\<close>: these are the steps to keep, for a Store whose array is at
  \<open>pa\<close>.
\<close>

lemma final_cases:
  "final r = Some s' \<Longrightarrow> r = Returned s' \<or> r = Thrown s'"
  by (cases r) simp_all

lemma exec_keeps:
  fixes I :: "'w memory \<Rightarrow> bool"
  assumes call: "\<And>t d n s s'. I s \<Longrightarrow> final (call t d n s) = Some s' \<Longrightarrow> I s'"
    and own: "\<And>s g. I s \<Longrightarrow> I (s\<lparr>world' := g (world' s)\<rparr>)"
    and arr: "\<And>s xs. I s \<Longrightarrow> I (s\<lparr>arrays' := (arrays' s)(a := xs)\<rparr>)"
    and cell: "\<And>s b g. I s \<Longrightarrow> ok g \<Longrightarrow> I (s\<lparr>heap := (heap s)(b := g (heap s b))\<rparr>)"
    and reg: "\<And>s f. I s \<Longrightarrow> writes ok (prog f) \<Longrightarrow> I (addListener' f s)"
  shows "writes ok c \<Longrightarrow> I s \<Longrightarrow> final (exec call c a s) = Some s' \<Longrightarrow> I s'"
proof (induction c arbitrary: s)
  case Return
  then show ?case by simp
next
  case Throw
  then show ?case by simp
next
  case (Look k)
  have "writes ok (k (map (heap s) (arrays' s a)) (world' s))"
    using Look.prems(1) by simp
  then show ?case
    using Look.IH [of "k (map (heap s) (arrays' s a))" "k (map (heap s) (arrays' s a)) (world' s)" s]
      Look.prems by simp
next
  case (Own g c)
  then show ?case
    using own [of s g] by simp
next
  case (WriteProject i g c)
  show ?case
  proof (cases "i < length (arrays' s a)")
    case True
    then show ?thesis
      using WriteProject cell [of s g "arrays' s a ! i"] by simp
  next
    case False
    then show ?thesis
      using WriteProject.prems by simp
  qed
next
  case (WriteArray g c)
  then show ?case
    using arr [of s "g (arrays' s a)"] by simp
next
  case (CallAddProject t d n k)
  show ?case
  proof (cases "call t d n s")
    case (Returned s1)
    have "I s1"
      using call [of s t d n s1] CallAddProject.prems(2) Returned by simp
    moreover have "writes ok (k False)"
      using CallAddProject.prems(1) by simp
    ultimately show ?thesis
      using CallAddProject.IH [of "k False" s1] CallAddProject.prems(3) Returned by simp
  next
    case (Thrown s1)
    have "I s1"
      using call [of s t d n s1] CallAddProject.prems(2) Thrown by simp
    moreover have "writes ok (k True)"
      using CallAddProject.prems(1) by simp
    ultimately show ?thesis
      using CallAddProject.IH [of "k True" s1] CallAddProject.prems(3) Thrown by simp
  next
    case OutOfFuel
    then show ?thesis
      using CallAddProject.prems(3) by simp
  qed
next
  case (CallAddListener i c' c)
  have "I (addListener' \<lparr>fnid = i, prog = c'\<rparr> s)"
    using reg [of s "\<lparr>fnid = i, prog = c'\<rparr>"] CallAddListener.prems by simp
  then show ?case
    using CallAddListener.IH(2) [of "addListener' \<lparr>fnid = i, prog = c'\<rparr> s"]
      CallAddListener.prems by simp
qed

lemma handOut_fst: "fst (handOut f s) = next_addr' s"
  by (simp add: handOut_def Let_def)

lemma notify'_keeps:
  fixes I :: "'w memory \<Rightarrow> bool"
  assumes call: "\<And>t d n s s'. I s \<Longrightarrow> final (call t d n s) = Some s' \<Longrightarrow> I s'"
    and own: "\<And>s g. I s \<Longrightarrow> I (s\<lparr>world' := g (world' s)\<rparr>)"
    and arr: "\<And>s a xs. I s \<Longrightarrow> a \<noteq> pa \<Longrightarrow> I (s\<lparr>arrays' := (arrays' s)(a := xs)\<rparr>)"
    and cell: "\<And>s b g. I s \<Longrightarrow> ok g \<Longrightarrow> I (s\<lparr>heap := (heap s)(b := g (heap s b))\<rparr>)"
    and reg: "\<And>s f. I s \<Longrightarrow> writes ok (prog f) \<Longrightarrow> I (addListener' f s)"
    and hand: "\<And>s f. I s \<Longrightarrow> I (snd (handOut f s))"
    and base: "\<And>s. I s \<Longrightarrow> pa < next_addr' s"
    and fns: "\<And>s f. I s \<Longrightarrow> f \<in> set (listeners' s) \<Longrightarrow> writes ok (prog f)"
  shows "I s \<Longrightarrow> final (notify' call fuel i s) = Some s' \<Longrightarrow> I s'"
proof (induction fuel arbitrary: i s)
  case 0
  then show ?case by (simp split: if_splits)
next
  case (Suc fuel)
  show ?case
  proof (cases "i < length (listeners' s)")
    case False
    then show ?thesis
      using Suc.prems by simp
  next
    case True
    define f where "f = listeners' s ! i"
    define a where "a = next_addr' s"
    define s1 where "s1 = snd (handOut f s)"
    have h: "handOut f s = (a, s1)"
      using handOut_fst [of f s] by (simp add: a_def s1_def prod_eq_iff)
    have i1: "I s1"
      unfolding s1_def by (rule hand [OF Suc.prems(1)])
    have ne: "a \<noteq> pa"
      using base [OF Suc.prems(1)] by (simp add: a_def)
    have w: "writes ok (prog f)"
      using fns [OF Suc.prems(1), of f] True by (simp add: f_def)
    have step: "notify' call (Suc fuel) i s =
        (case exec call (prog f) a s1 of
           Returned s2 \<Rightarrow> notify' call fuel (Suc i) s2
         | Thrown s2 \<Rightarrow> Thrown s2
         | OutOfFuel \<Rightarrow> OutOfFuel)"
      using True by (simp add: f_def [symmetric] h)
    have ex: "I s2" if "final (exec call (prog f) a s1) = Some s2" for s2
      using exec_keeps [of I call a ok "prog f" s1 s2] call own arr [OF _ ne] cell reg w i1 that
      by blast
    have fin: "final (case exec call (prog f) a s1 of
           Returned s2 \<Rightarrow> notify' call fuel (Suc i) s2
         | Thrown s2 \<Rightarrow> Thrown s2
         | OutOfFuel \<Rightarrow> OutOfFuel) = Some s'"
      using Suc.prems(2) unfolding step .
    show ?thesis
    proof (cases "exec call (prog f) a s1")
      case (Returned s2)
      then have "I s2"
        using ex by simp
      then show ?thesis
        using Suc.IH [of s2 "Suc i"] fin by (simp add: Returned)
    next
      case (Thrown s2)
      then have "I s2"
        using ex by simp
      then show ?thesis
        using fin by (simp add: Thrown)
    next
      case OutOfFuel
      then show ?thesis
        using fin by simp
    qed
  qed
qed

lemma addProject'_keeps:
  fixes I :: "'w memory \<Rightarrow> bool"
  assumes own: "\<And>s g. I s \<Longrightarrow> I (s\<lparr>world' := g (world' s)\<rparr>)"
    and arr: "\<And>s a xs. I s \<Longrightarrow> a \<noteq> pa \<Longrightarrow> I (s\<lparr>arrays' := (arrays' s)(a := xs)\<rparr>)"
    and cell: "\<And>s b g. I s \<Longrightarrow> ok g \<Longrightarrow> I (s\<lparr>heap := (heap s)(b := g (heap s b))\<rparr>)"
    and reg: "\<And>s f. I s \<Longrightarrow> writes ok (prog f) \<Longrightarrow> I (addListener' f s)"
    and hand: "\<And>s f. I s \<Longrightarrow> I (snd (handOut f s))"
    and base: "\<And>s. I s \<Longrightarrow> pa < next_addr' s"
    and fns: "\<And>s f. I s \<Longrightarrow> f \<in> set (listeners' s) \<Longrightarrow> writes ok (prog f)"
    and psh: "\<And>s t d n. I s \<Longrightarrow> I (push P t d n s)"
  shows "I s \<Longrightarrow> final (addProject' P fuel t d n s) = Some s' \<Longrightarrow> I s'"
proof (induction fuel arbitrary: t d n s s')
  case 0
  then show ?case by simp
next
  case (Suc fuel)
  have nested: "\<And>t d n s s'. I s \<Longrightarrow> final (addProject' P fuel t d n s) = Some s' \<Longrightarrow> I s'"
    using Suc.IH by blast
  have "I (push P t d n s)"
    by (rule psh [OF Suc.prems(1)])
  then show ?case
    using notify'_keeps [of I "addProject' P fuel" pa ok "push P t d n s" "Suc fuel" 0 s']
      nested own arr cell reg hand base fns Suc.prems(2)
    by simp
qed

lemma performAll'_keeps:
  fixes I :: "'w memory \<Rightarrow> bool"
  assumes own: "\<And>s g. I s \<Longrightarrow> I (s\<lparr>world' := g (world' s)\<rparr>)"
    and arr: "\<And>s a xs. I s \<Longrightarrow> a \<noteq> pa \<Longrightarrow> I (s\<lparr>arrays' := (arrays' s)(a := xs)\<rparr>)"
    and cell: "\<And>s b g. I s \<Longrightarrow> ok g \<Longrightarrow> I (s\<lparr>heap := (heap s)(b := g (heap s b))\<rparr>)"
    and reg: "\<And>s f. I s \<Longrightarrow> writes ok (prog f) \<Longrightarrow> I (addListener' f s)"
    and hand: "\<And>s f. I s \<Longrightarrow> I (snd (handOut f s))"
    and base: "\<And>s. I s \<Longrightarrow> pa < next_addr' s"
    and fns: "\<And>s f. I s \<Longrightarrow> f \<in> set (listeners' s) \<Longrightarrow> writes ok (prog f)"
    and psh: "\<And>s t d n. I s \<Longrightarrow> I (push P t d n s)"
  shows "list_all (registers ok) cs \<Longrightarrow> I s \<Longrightarrow> performAll' P fuel cs s = Some s' \<Longrightarrow> I s'"
proof (induction cs arbitrary: s)
  case Nil
  then show ?case by simp
next
  case (Cons c cs)
  from Cons.prems(3) obtain s1 where s1: "final (perform' P fuel c s) = Some s1"
    and rest: "performAll' P fuel cs s1 = Some s'"
    by (auto split: option.splits)
  have "I s1"
  proof (cases c)
    case (AddListener' f)
    then show ?thesis
      using reg [of s f] Cons.prems(1,2) s1 by (auto simp: registers_def)
  next
    case (AddProject' t d n)
    then show ?thesis
      using addProject'_keeps [of I pa ok P s fuel t d n s1]
        own arr cell reg hand base fns psh Cons.prems(2) s1
      by simp
  qed
  then show ?case
    using Cons.IH [of s1] Cons.prems(1) rest by simp
qed

text \<open>
  The three invariants: all Active under callbacks that write no status, the ids under
  callbacks that write no id, and the Store's array under callbacks of any kind.
\<close>

lemma storeActive_all:
  assumes "list_all (registers keepsStatus) cs" and "storeActive s"
    and "performAll' P fuel cs s = Some s'"
  shows "storeActive s'"
proof (rule performAll'_keeps [of storeActive 0 keepsStatus P cs s fuel s', OF _ _ _ _ _ _ _ _ assms(1,2,3)])
  show "\<And>s g. storeActive s \<Longrightarrow> storeActive (s\<lparr>world' := g (world' s)\<rparr>)"
    by (simp add: storeActive_def)
  show "\<And>s a xs. storeActive s \<Longrightarrow> a \<noteq> 0 \<Longrightarrow> storeActive (s\<lparr>arrays' := (arrays' s)(a := xs)\<rparr>)"
    by (simp add: storeActive_def)
  show "\<And>s b g. storeActive s \<Longrightarrow> keepsStatus g \<Longrightarrow>
      storeActive (s\<lparr>heap := (heap s)(b := g (heap s b))\<rparr>)"
    by (simp add: storeActive_def keepsStatus_def list_all_iff)
  show "\<And>s f. storeActive s \<Longrightarrow> writes keepsStatus (prog f) \<Longrightarrow> storeActive (addListener' f s)"
    by (simp add: storeActive_def addListener'_def)
  show "\<And>s f. storeActive s \<Longrightarrow> storeActive (snd (handOut f s))"
    by (simp add: storeActive_def handOut_def Let_def)
  show "\<And>s. storeActive s \<Longrightarrow> 0 < next_addr' s"
    by (simp add: storeActive_def)
  show "\<And>s f. storeActive s \<Longrightarrow> f \<in> set (listeners' s) \<Longrightarrow> writes keepsStatus (prog f)"
    by (simp add: storeActive_def list_all_iff)
  show "\<And>s t d n. storeActive s \<Longrightarrow> storeActive (push P t d n s)"
    by (simp add: storeActive_def push_def Let_def list_all_iff)
qed

lemma storeIds_cell:
  assumes "storeIds P s" and "keepsId g"
  shows "storeIds P (s\<lparr>heap := (heap s)(b := g (heap s b))\<rparr>)"
proof -
  have "(\<lambda>a. id' (((heap s)(b := g (heap s b))) a)) = (\<lambda>a. id' (heap s a))"
    using assms(2) by (auto simp: keepsId_def fun_eq_iff)
  then show ?thesis
    using assms(1) by (simp add: storeIds_def)
qed

lemma storeIds_push:
  assumes "storeIds P s"
  shows "storeIds P (push P t d n s)"
proof -
  have old: "\<forall>a \<in> set (arrays' s 0). a \<noteq> next_addr' s"
    using assms by (auto simp: storeIds_def list_all_iff)
  have m: "map (\<lambda>a. id' (if a = next_addr' s then x else heap s a)) (arrays' s 0) =
      map (\<lambda>a. id' (heap s a)) (arrays' s 0)" for x
    using old by (simp add: map_eq_conv)
  have b: "list_all (\<lambda>a. a < Suc (next_addr' s)) (arrays' s 0)"
    using assms by (auto simp: storeIds_def list_all_iff)
  show ?thesis
    using assms b by (simp add: storeIds_def push_def Let_def m)
qed

lemma storeIds_all:
  assumes "list_all (registers keepsId) cs" and "storeIds P s"
    and "performAll' P fuel cs s = Some s'"
  shows "storeIds P s'"
proof (rule performAll'_keeps [of "storeIds P" 0 keepsId P cs s fuel s', OF _ _ _ _ _ _ _ _ assms(1,2,3)])
  show "\<And>s g. storeIds P s \<Longrightarrow> storeIds P (s\<lparr>world' := g (world' s)\<rparr>)"
    by (simp add: storeIds_def)
  show "\<And>s a xs. storeIds P s \<Longrightarrow> a \<noteq> 0 \<Longrightarrow> storeIds P (s\<lparr>arrays' := (arrays' s)(a := xs)\<rparr>)"
    by (simp add: storeIds_def)
  show "\<And>s b g. storeIds P s \<Longrightarrow> keepsId g \<Longrightarrow>
      storeIds P (s\<lparr>heap := (heap s)(b := g (heap s b))\<rparr>)"
    by (rule storeIds_cell)
  show "\<And>s f. storeIds P s \<Longrightarrow> writes keepsId (prog f) \<Longrightarrow> storeIds P (addListener' f s)"
    by (simp add: storeIds_def addListener'_def)
  show "\<And>s f. storeIds P s \<Longrightarrow> storeIds P (snd (handOut f s))"
    by (auto simp: storeIds_def handOut_def Let_def list_all_iff less_Suc_eq)
  show "\<And>s. storeIds P s \<Longrightarrow> 0 < next_addr' s"
    by (simp add: storeIds_def)
  show "\<And>s f. storeIds P s \<Longrightarrow> f \<in> set (listeners' s) \<Longrightarrow> writes keepsId (prog f)"
    by (simp add: storeIds_def list_all_iff)
  show "\<And>s t d n. storeIds P s \<Longrightarrow> storeIds P (push P t d n s)"
    by (rule storeIds_push)
qed







lemma storeGrows_start:
  assumes "projects' s < next_addr' s"
  shows "storeGrows (projects' s) (arrays' s (projects' s)) (length (invocations' s)) s"
  using assms by (simp add: storeGrows_def)





















lemma half: "randomString examplePlatform 0 = utf16 ''0.5''"
  by (simp add: examplePlatform_def fives_def utf16_def)









lemma start'_storeActive: "storeActive (start' v)"
  by (simp add: storeActive_def start'_def)

lemma start'_storeIds: "storeIds P (start' v)"
  by (simp add: storeIds_def start'_def)

text \<open>
  C8, as amended. In a Store on which a client has made any calls, with callbacks of any
  kind that write no id of a project, the ids of the projects are, in order, the
  strings \<open>Math.random().toString()\<close> of their creations; the ids are pairwise
  different exactly when these strings are. Nothing in \<open>addProject\<close> looks for a
  string that comes a second time (section Properties of the Store has the Store in
  which it does).
\<close>

theorem ids_are_the_random_strings_unless_written:
  assumes "list_all (registers keepsId) cs" and "performAll' P fuel cs (start' v) = Some s"
  shows "map id' (projectsOf' s) = map (randomString P) [0..<length (projectsOf' s)]
    \<and> distinct (map id' (projectsOf' s)) = inj_on (randomString P) {..<length (projectsOf' s)}"
proof -
  have "storeIds P s"
    by (rule storeIds_all [OF assms(1) start'_storeIds assms(2)])
  then have ids: "map id' (projectsOf' s) = map (randomString P) [0..<random_calls' s]"
    by (simp add: storeIds_def projectsOf'_def comp_def)
  have "length (map id' (projectsOf' s)) = random_calls' s"
    unfolding ids by simp
  then have len: "random_calls' s = length (projectsOf' s)"
    by simp
  have ids': "map id' (projectsOf' s) = map (randomString P) [0..<length (projectsOf' s)]"
    using ids len by simp
  have "distinct (map id' (projectsOf' s)) = inj_on (randomString P) {..<length (projectsOf' s)}"
    unfolding ids' by (simp add: distinct_map lessThan_atLeast0)
  then show ?thesis
    using ids' by simp
qed

text \<open>
  The calls \<open>busy\<close> register a callback that adds a project in its turn and one
  that writes a status.
\<close>

lemma busy_run:
  "map_option (map id' \<circ> projectsOf') (performAll' examplePlatform 3 busy (start' 0))
     = Some [utf16 ''0.5'', utf16 ''0.55'']"
  by (simp add: eval_nat_numeral busy_def addListener'_def start'_def push_def handOut_def
      projectsOf'_def Let_def reenters_def finisher_def thrower_def examplePlatform_def fives_def
      utf16_def)

text \<open>
  After the calls \<open>busy\<close> the Store holds two projects, with the first two strings
  of the platform of the examples.
\<close>

theorem ids_are_the_random_strings_unless_written_witness:
  "list_all (registers keepsId) busy
   \<and> (\<exists>s. performAll' examplePlatform 3 busy (start' 0) = Some s
        \<and> map id' (projectsOf' s) = [utf16 ''0.5'', utf16 ''0.55'']
        \<and> inj_on (randomString examplePlatform) {..<length (projectsOf' s)})"
proof -
  have h: "list_all (registers keepsId) busy"
    by (simp add: busy_def registers_def keepsId_def reenters_def finisher_def thrower_def)
  from busy_run obtain s where run: "performAll' examplePlatform 3 busy (start' 0) = Some s"
    and ids: "map id' (projectsOf' s) = [utf16 ''0.5'', utf16 ''0.55'']"
    by auto
  have d: "distinct (map id' (projectsOf' s))"
    unfolding ids by (simp add: utf16_def)
  from ids_are_the_random_strings_unless_written [OF h run]
  have "distinct (map id' (projectsOf' s)) =
      inj_on (randomString examplePlatform) {..<length (projectsOf' s)}"
    by blast
  then have i: "inj_on (randomString examplePlatform) {..<length (projectsOf' s)}"
    using d by simp
  have "performAll' examplePlatform 3 busy (start' 0) = Some s
      \<and> map id' (projectsOf' s) = [utf16 ''0.5'', utf16 ''0.55'']
      \<and> inj_on (randomString examplePlatform) {..<length (projectsOf' s)}"
    using run ids i by (intro conjI)
  then have "\<exists>s. performAll' examplePlatform 3 busy (start' 0) = Some s
      \<and> map id' (projectsOf' s) = [utf16 ''0.5'', utf16 ''0.55'']
      \<and> inj_on (randomString examplePlatform) {..<length (projectsOf' s)}"
    by (rule exI)
  then show ?thesis
    using h by (intro conjI)
qed

text \<open>
  A callback that writes an id is another way to a repeated id: with \<open>relabeller\<close>
  registered, the strings of \<open>Math.random\<close> differ and the two ids do not.
\<close>

lemma id_writing_callback_repeats_an_id:
  "map_option (map id' \<circ> projectsOf')
     (performAll' examplePlatform 2
        [AddListener' relabeller, AddProject' (utf16 ''a'') (utf16 ''first'') (Finite 1),
         AddProject' (utf16 ''b'') (utf16 ''second'') (Finite 2)]
        (start' 0))
     = Some [utf16 ''0.55'', utf16 ''0.55'']"
  by (simp add: eval_nat_numeral addListener'_def start'_def push_def handOut_def projectsOf'_def
      Let_def relabeller_def examplePlatform_def fives_def utf16_def)






section \<open>Properties of the drag-start handler\<close>

lemma getData_setData: "getData format (setData format d dt) = d"
proof -
  have "map_of (filter (\<lambda>item. fst item \<noteq> format) (store dt)) format = None"
    by (auto simp: map_of_eq_None_iff)
  then show ?thesis
    by (simp add: getData_def setData_def map_add_def)
qed

text \<open>
  C9. On a drag event that carries a data transfer, the drag-start handler of a row
  returns the event with a data transfer whose \<open>text/plain\<close> data is the id of the
  row's project, held once, and whose allowed effect is \<open>move\<close>.
\<close>

theorem dragStartHandler_sets_payload:
  assumes "dataTransfer event = Some dt"
  shows "\<exists>dt'. dragStartHandler item event = Inr (event\<lparr>dataTransfer := Some dt'\<rparr>)
          \<and> getData (utf16 ''text/plain'') dt' = id' (project item)
          \<and> effectAllowed dt' = utf16 ''move''
          \<and> count_list (types dt') (utf16 ''text/plain'') = 1"
proof -
  define dt' where "dt' = (setData (utf16 ''text/plain'') (id' (project item)) dt)
      \<lparr>effectAllowed := utf16 ''move''\<rparr>"
  have r: "dragStartHandler item event = Inr (event\<lparr>dataTransfer := Some dt'\<rparr>)"
    using assms by (simp add: dragStartHandler_def dt'_def)
  have "getData (utf16 ''text/plain'') dt' =
      getData (utf16 ''text/plain'') (setData (utf16 ''text/plain'') (id' (project item)) dt)"
    by (simp add: dt'_def getData_def)
  then have g: "getData (utf16 ''text/plain'') dt' = id' (project item)"
    by (simp add: getData_setData)
  have e: "effectAllowed dt' = utf16 ''move''"
    by (simp add: dt'_def)
  have "count_list (map fst (filter (\<lambda>item. fst item \<noteq> f) xs)) f = 0"
    for f :: jsstring and xs :: "(jsstring \<times> jsstring) list"
    by (induction xs) auto
  then have c: "count_list (types dt') (utf16 ''text/plain'') = 1"
    by (simp add: dt'_def types_def setData_def)
  show ?thesis
    using r g e c by blast
qed

theorem dragStartHandler_sets_payload_witness:
  "dataTransfer \<lparr>dataTransfer = Some \<lparr>store = [(utf16 ''text/plain'', utf16 ''old'')],
                                       effectAllowed = utf16 ''uninitialized''\<rparr>,
                 defaultPrevented = False\<rparr>
     = Some \<lparr>store = [(utf16 ''text/plain'', utf16 ''old'')], effectAllowed = utf16 ''uninitialized''\<rparr>
   \<and> dragStartHandler
       \<lparr>project = \<lparr>id' = utf16 ''0.5'', title = utf16 ''a'', description = utf16 ''first one'',
                   people = Finite 1, status = Active\<rparr>\<rparr>
       \<lparr>dataTransfer = Some \<lparr>store = [(utf16 ''text/plain'', utf16 ''old'')],
                              effectAllowed = utf16 ''uninitialized''\<rparr>,
        defaultPrevented = False\<rparr>
     = Inr \<lparr>dataTransfer = Some \<lparr>store = [(utf16 ''text/plain'', utf16 ''0.5'')],
                                  effectAllowed = utf16 ''move''\<rparr>,
            defaultPrevented = False\<rparr>"
proof -
  have h: "dataTransfer \<lparr>dataTransfer = Some \<lparr>store = [(utf16 ''text/plain'', utf16 ''old'')],
                                       effectAllowed = utf16 ''uninitialized''\<rparr>,
                 defaultPrevented = False\<rparr>
     = Some \<lparr>store = [(utf16 ''text/plain'', utf16 ''old'')], effectAllowed = utf16 ''uninitialized''\<rparr>"
    by simp
  from dragStartHandler_sets_payload [OF h, of "\<lparr>project = \<lparr>id' = utf16 ''0.5'', title = utf16 ''a'',
      description = utf16 ''first one'', people = Finite 1, status = Active\<rparr>\<rparr>"]
  obtain dt' where "dragStartHandler
       \<lparr>project = \<lparr>id' = utf16 ''0.5'', title = utf16 ''a'', description = utf16 ''first one'',
                   people = Finite 1, status = Active\<rparr>\<rparr>
       \<lparr>dataTransfer = Some \<lparr>store = [(utf16 ''text/plain'', utf16 ''old'')],
                              effectAllowed = utf16 ''uninitialized''\<rparr>,
        defaultPrevented = False\<rparr> = Inr (\<lparr>dataTransfer = Some \<lparr>store = [(utf16 ''text/plain'', utf16 ''old'')],
                              effectAllowed = utf16 ''uninitialized''\<rparr>,
        defaultPrevented = False\<rparr>\<lparr>dataTransfer := Some dt'\<rparr>)"
    by blast
  then show ?thesis
    using h by (simp add: dragStartHandler_def setData_def)
qed

section \<open>Properties of the form\<close>

lemma fetchUserInput_eq:
  "fetchUserInput P w =
    (if validSubmission P w
     then (Some (titleInputElement (myForm w), descriptionInputElement (myForm w),
                 toNumber P (peopleInputElement (myForm w))), w)
     else (None, alerted w))"
  by (simp add: fetchUserInput_def validSubmission_def alerted_def Let_def)

lemma validSubmission_eq:
  "validSubmission P w =
    (length (trim (titleInputElement (myForm w))) \<noteq> 0
     \<and> length (trim (descriptionInputElement (myForm w))) \<noteq> 0
     \<and> 5 < length (descriptionInputElement (myForm w))
     \<and> js_lt (Finite 0) (toNumber P (peopleInputElement (myForm w)))
     \<and> js_lt (toNumber P (peopleInputElement (myForm w))) (Finite 5))"
  by (simp add: validSubmission_def validateForm_def js_gt_def lengthOf_def)

lemma submitHandler_invalid:
  "\<not> validSubmission P (world s) \<Longrightarrow> submitHandler P s = s\<lparr>world := alerted (world s)\<rparr>"
  by (simp add: submitHandler_def fetchUserInput_eq)

lemma submitHandler_valid:
  "validSubmission P (world s) \<Longrightarrow>
     submitHandler P s =
       (let w = world s;
            t = titleInputElement (myForm w);
            d = descriptionInputElement (myForm w);
            n = toNumber P (peopleInputElement (myForm w));
            s3 = addProject P (projectState w) t d n (s\<lparr>world := logged [Str t, Str d, Num n] w\<rparr>)
        in s3\<lparr>world := clearInput (world s3)\<rparr>)"
  by (simp add: submitHandler_def fetchUserInput_eq logged_def Let_def)


lemma main_fields:
  "instance' main = Some 0"
  "projectState (world main) = 0"
  "projects (objects main 0) = Suc 0"
  "next_addr main = 4"
  "arrays main (Suc 0) = []"
  "listeners (objects main 0) = [\<lparr>ident = 2, body = projectsListener ListActive\<rparr>,
                                 \<lparr>ident = 3, body = projectsListener ListFinished\<rparr>]"
  "random_calls main = 0"
  "invocations main = []"
  "world main = blankPage"
  by (simp_all add: main_def getInstance_def new_ProjectState_def start_def new_ProjectInput_def
      new_ProjectLists_def configure_def addListener_def setListOf_def blankPage_def Let_def)

lemma appInv_main: "appInv main"
  by (simp add: appInv_def Let_def main_fields allocated_def projectsOf_def blankPage_def)

lemma typed_fields:
  "instance' (typed t d p) = Some 0"
  "projectState (world (typed t d p)) = 0"
  "projects (objects (typed t d p) 0) = Suc 0"
  "next_addr (typed t d p) = 4"
  "arrays (typed t d p) (Suc 0) = []"
  "random_calls (typed t d p) = 0"
  "invocations (typed t d p) = []"
  "myForm (world (typed t d p)) =
     \<lparr>titleInputElement = t, descriptionInputElement = d, peopleInputElement = p\<rparr>"
  "alerts (world (typed t d p)) = []"
  by (simp_all add: typed_def run_def main_fields) (simp_all add: blankPage_def)

lemma three: "decimalToNumber (utf16 ''3'') = Finite 3"
  by (simp add: decimalToNumber_def utf16_def trim_def isWhiteSpace_def isDigit_def)


section \<open>Properties of the page\<close>

lemma appInv_world:
  assumes "appInv s"
    and "projectState w' = projectState (world s)"
    and "type' (activeProjectLists w') = type' (activeProjectLists (world s))"
    and "assignedProjects (activeProjectLists w') = assignedProjects (activeProjectLists (world s))"
    and "rows (activeProjectLists w') = rows (activeProjectLists (world s))"
    and "type' (finishedProjectLists w') = type' (finishedProjectLists (world s))"
    and "assignedProjects (finishedProjectLists w') = assignedProjects (finishedProjectLists (world s))"
    and "rows (finishedProjectLists w') = rows (finishedProjectLists (world s))"
  shows "appInv (s\<lparr>world := w'\<rparr>)"
  using assms by (simp add: appInv_def Let_def allocated_def projectsOf_def)

lemma projectsListener_Active:
  assumes "type' (activeProjectLists w) = ListActive"
    and "list_all (\<lambda>p. status p = Active) items"
  shows "snd (projectsListener ListActive items w) =
     w\<lparr>activeProjectLists := (activeProjectLists w)
         \<lparr>assignedProjects := items, rows := map (\<lambda>p. \<lparr>project = p\<rparr>) items\<rparr>\<rparr>"
proof -
  have "filter (\<lambda>item. status item = Active) items = items"
    using assms(2) by (simp add: list_all_iff)
  then show ?thesis
    using assms(1)
    by (simp add: projectsListener_def listOf_def setListOf_def renderProjects_def Let_def)
qed

lemma projectsListener_Finished:
  assumes "type' (finishedProjectLists w) = ListFinished"
    and "list_all (\<lambda>p. status p = Active) items"
  shows "snd (projectsListener ListFinished items w) =
     w\<lparr>finishedProjectLists := (finishedProjectLists w)\<lparr>assignedProjects := [], rows := []\<rparr>\<rparr>"
proof -
  have "filter (\<lambda>item. status item = Finished) items = []"
    using assms(2) by (auto simp: list_all_iff filter_empty_conv)
  then show ?thesis
    using assms(1)
    by (simp add: projectsListener_def listOf_def setListOf_def renderProjects_def Let_def)
qed

lemma appInv_addProject:
  assumes "appInv s"
  shows "appInv (addProject P (projectState (world s)) t d n s)"
proof -
  define i where "i = projectState (world s)"
  define items where "items = projectsOf i s @ [newProject P t d n s]"
  define s' where "s' = addProject P i t d n s"
  from assms have inst: "instance' s = Some i" and al: "allocated i s"
    and bodies: "map body (listeners (objects s i)) =
        [projectsListener ListActive, projectsListener ListFinished]"
    and ta: "type' (activeProjectLists (world s)) = ListActive"
    and tf: "type' (finishedProjectLists (world s)) = ListFinished"
    and act: "list_all (\<lambda>p. status p = Active) (projectsOf i s)"
    by (simp_all add: appInv_def Let_def i_def)
  from bodies obtain la lf where ls: "listeners (objects s i) = [la, lf]"
    and ba: "body la = projectsListener ListActive"
    and bf: "body lf = projectsListener ListFinished"
    by (auto simp: map_eq_Cons_conv)
  have act': "list_all (\<lambda>p. status p = Active) items"
    using act by (simp add: items_def newProject_def)
  define w1 where "w1 = snd (projectsListener ListActive items (world s))"
  have w1: "w1 = (world s)\<lparr>activeProjectLists := (activeProjectLists (world s))
         \<lparr>assignedProjects := items, rows := map (\<lambda>p. \<lparr>project = p\<rparr>) items\<rparr>\<rparr>"
    unfolding w1_def by (rule projectsListener_Active [OF ta act'])
  have tf1: "type' (finishedProjectLists w1) = ListFinished"
    using tf by (simp add: w1)
  have w': "world s' = w1\<lparr>finishedProjectLists := (finishedProjectLists w1)
         \<lparr>assignedProjects := [], rows := []\<rparr>\<rparr>"
    using projectsListener_Finished [OF tf1 act']
    by (simp add: s'_def addProject_world [OF al] ls ba bf items_def [symmetric] w1_def)
  have seq: "projectsOf i s' = items"
    by (simp add: s'_def items_def addProject_projectsOf [OF al])
  have ps': "projectState (world s') = i"
    by (simp add: w' w1 i_def)
  have inst': "instance' s' = Some i"
    using inst by (simp add: s'_def addProject_fields)
  have al': "allocated i s'"
    unfolding s'_def by (rule addProject_allocated [OF al])
  have bodies': "map body (listeners (objects s' i)) =
      [projectsListener ListActive, projectsListener ListFinished]"
    using bodies by (simp add: s'_def addProject_fields)
  have lists: "type' (activeProjectLists (world s')) = ListActive"
    "type' (finishedProjectLists (world s')) = ListFinished"
    "assignedProjects (activeProjectLists (world s')) = items"
    "map project (rows (activeProjectLists (world s'))) = items"
    "assignedProjects (finishedProjectLists (world s')) = []"
    "rows (finishedProjectLists (world s')) = []"
    using ta tf by (simp_all add: w' w1 comp_def)
  have "appInv s'"
    unfolding appInv_def Let_def ps'
    using inst' al' bodies' lists act' seq by simp
  then show ?thesis
    by (simp add: s'_def i_def)
qed

lemma appInv_getInstance: "appInv s \<Longrightarrow> getInstance s = (projectState (world s), s)"
  by (simp add: appInv_def Let_def getInstance_Some)

lemma appInv_submitHandler:
  assumes "appInv s"
  shows "appInv (submitHandler P s)"
proof (cases "validSubmission P (world s)")
  case False
  then show ?thesis
    using appInv_world [OF assms, of "alerted (world s)"]
    by (simp add: submitHandler_invalid alerted_def)
next
  case True
  define w where "w = world s"
  define line where "line = [Str (titleInputElement (myForm w)),
      Str (descriptionInputElement (myForm w)), Num (toNumber P (peopleInputElement (myForm w)))]"
  define s2 where "s2 = s\<lparr>world := logged line w\<rparr>"
  define s3 where "s3 = addProject P (projectState w) (titleInputElement (myForm w))
      (descriptionInputElement (myForm w)) (toNumber P (peopleInputElement (myForm w))) s2"
  have i2: "appInv s2"
    unfolding s2_def using appInv_world [OF assms, of "logged line w"]
    by (simp add: logged_def w_def)
  have p2: "projectState (world s2) = projectState w"
    by (simp add: s2_def logged_def)
  have i3: "appInv s3"
    unfolding s3_def using appInv_addProject [OF i2, of P] by (simp add: p2)
  have "appInv (s3\<lparr>world := clearInput (world s3)\<rparr>)"
    using appInv_world [OF i3, of "clearInput (world s3)"] by (simp add: clearInput_def)
  then show ?thesis
    using True
    by (simp add: submitHandler_valid Let_def w_def [symmetric] line_def [symmetric]
        s2_def [symmetric] s3_def [symmetric])
qed

lemma dispatch_Drop:
  "\<exists>lines. dispatch P (Drop e) s = s\<lparr>world := (world s)\<lparr>console := lines\<rparr>\<rparr>"
proof (cases "dataTransfer e")
  case None
  have "dispatch P (Drop e) s = s\<lparr>world := (world s)\<lparr>console := console (world s)\<rparr>\<rparr>"
    using None by (simp add: dropHandler_def)
  then show ?thesis by blast
next
  case (Some dt)
  have "dispatch P (Drop e) s = s\<lparr>world := (world s)\<lparr>console :=
      console (world s) @ [[Str (getData (utf16 ''text/plain'') dt)]]\<rparr>\<rparr>"
    using Some by (simp add: dropHandler_def)
  then show ?thesis by blast
qed

lemma appInv_dispatch:
  assumes "appInv s"
  shows "appInv (dispatch P e s)"
proof (cases e)
  case (InputTitle v)
  then show ?thesis
    using appInv_world [OF assms, of "(world s)\<lparr>myForm := (myForm (world s))\<lparr>titleInputElement := v\<rparr>\<rparr>"]
    by simp
next
  case (InputDescription v)
  then show ?thesis
    using appInv_world [OF assms, of "(world s)\<lparr>myForm := (myForm (world s))\<lparr>descriptionInputElement := v\<rparr>\<rparr>"]
    by simp
next
  case (InputPeople v)
  then show ?thesis
    using appInv_world [OF assms, of "(world s)\<lparr>myForm := (myForm (world s))\<lparr>peopleInputElement := v\<rparr>\<rparr>"]
    by simp
next
  case Submit
  then show ?thesis
    using appInv_submitHandler [OF assms] by simp
next
  case (DragStart which k ev)
  then show ?thesis
    using assms by simp
next
  case DragEnd
  then show ?thesis
    using appInv_world [OF assms, of "dragEndHandler (world s)"]
    by (simp add: dragEndHandler_def)
next
  case (DragOver which ev)
  then show ?thesis
    using appInv_world [OF assms, of "snd (dragOverHandler which ev (world s))"]
    by (cases which)
       (simp_all add: dragOverHandler_def listOf_def setListOf_def
          split: option.splits list.splits)
next
  case (Drop ev)
  obtain lines where "dispatch P (Drop ev) s = s\<lparr>world := (world s)\<lparr>console := lines\<rparr>\<rparr>"
    using dispatch_Drop by blast
  then show ?thesis
    using Drop appInv_world [OF assms, of "(world s)\<lparr>console := lines\<rparr>"] by simp
next
  case (DragLeave which)
  then show ?thesis
    using appInv_world [OF assms, of "dragLeaveHandler which (world s)"]
    by (cases which) (simp_all add: dragLeaveHandler_def listOf_def setListOf_def)
next
  case CallGetInstance
  then show ?thesis
    using assms by (simp add: appInv_getInstance)
next
  case (CallAddProject t d n)
  then show ?thesis
    using assms appInv_addProject [OF assms] by (simp add: appInv_getInstance)
qed

lemma appInv_run: "appInv s \<Longrightarrow> appInv (run P es s)"
  unfolding run_def by (induction es arbitrary: s) (simp_all add: appInv_dispatch)

lemma submitted:
  defines "good \<equiv> typed (utf16 ''Learn Systems Design'') (utf16 ''Study the paper'') (utf16 ''3'')"
  shows "instance' (submitHandler examplePlatform good) = Some 0"
    and "projectsOf 0 (submitHandler examplePlatform good) =
      [\<lparr>id' = utf16 ''0.5'', title = utf16 ''Learn Systems Design'',
        description = utf16 ''Study the paper'', people = Finite 3, status = Active\<rparr>]"
proof -
  have vg: "validSubmission examplePlatform (world good)"
    by (simp add: validSubmission_eq good_def typed_fields examplePlatform_def three)
       (simp add: utf16_def trim_def isWhiteSpace_def)
  define s2 where "s2 = good\<lparr>world := logged
      [Str (utf16 ''Learn Systems Design''), Str (utf16 ''Study the paper''), Num (Finite 3)]
      (world good)\<rparr>"
  define s3 where "s3 = addProject examplePlatform 0 (utf16 ''Learn Systems Design'')
      (utf16 ''Study the paper'') (Finite 3) s2"
  have eq: "submitHandler examplePlatform good = s3\<lparr>world := clearInput (world s3)\<rparr>"
    using vg
    by (simp add: submitHandler_valid Let_def s3_def s2_def)
       (simp add: good_def typed_fields examplePlatform_def three)
  have al: "allocated 0 s2"
    by (simp add: allocated_def s2_def good_def typed_fields)
  have old: "projectsOf 0 s2 = []"
    by (simp add: projectsOf_def s2_def good_def typed_fields)
  have np: "newProject examplePlatform (utf16 ''Learn Systems Design'') (utf16 ''Study the paper'')
      (Finite 3) s2 = \<lparr>id' = utf16 ''0.5'', title = utf16 ''Learn Systems Design'',
        description = utf16 ''Study the paper'', people = Finite 3, status = Active\<rparr>"
    by (simp add: newProject_def s2_def good_def typed_fields examplePlatform_def fives_def utf16_def)
  show "instance' (submitHandler examplePlatform good) = Some 0"
    by (simp add: eq s3_def addProject_fields) (simp add: s2_def good_def typed_fields)
  have "projectsOf 0 (s3\<lparr>world := clearInput (world s3)\<rparr>) = projectsOf 0 s3"
    by (simp add: projectsOf_def)
  then show "projectsOf 0 (submitHandler examplePlatform good) =
      [\<lparr>id' = utf16 ''0.5'', title = utf16 ''Learn Systems Design'',
        description = utf16 ''Study the paper'', people = Finite 3, status = Active\<rparr>]"
    by (simp add: eq s3_def addProject_projectsOf [OF al] old np)
qed

text \<open>
  A Store on which a client makes any calls, with callbacks of any kind that write no
  status.
\<close>

lemma store_stays_Active:
  assumes "list_all (registers keepsStatus) cs" and "performAll' P fuel cs (start' v) = Some u"
  shows "list_all (\<lambda>p. status p = Active) (projectsOf' u)"
  using storeActive_all [OF assms(1) start'_storeActive assms(2)]
  by (simp add: storeActive_def projectsOf'_def list_all_iff)

lemma calm_keeps: "list_all (registers keepsStatus) calm"
  by (simp add: calm_def registers_def keepsStatus_def reenters_def retitler_def)

lemma calm_run:
  "map_option (map title \<circ> projectsOf') (performAll' examplePlatform 3 calm (start' 0))
     = Some [utf16 ''renamed'', utf16 ''x'']"
  by (simp add: eval_nat_numeral calm_def addListener'_def start'_def push_def handOut_def
      projectsOf'_def Let_def reenters_def retitler_def thrower_def examplePlatform_def fives_def)

lemma calm_Active:
  "\<exists>u. performAll' examplePlatform 3 calm (start' 0) = Some u
      \<and> map title (projectsOf' u) = [utf16 ''renamed'', utf16 ''x'']"
  using calm_run by auto

text \<open>
  C5, as amended. After any sequence of events on the page that the script has set up
  (edits of the fields, submissions, the drag events, calls of \<open>getInstance\<close> and of
  \<open>addProject\<close>), every project of the Store has the status Active: none is
  Finished, the list of the Finished column is empty and shows no row, the Active column
  holds the whole sequence. A drop writes to the console at most: to the Store it does
  nothing. And in a Store on which a client has made any calls of \<open>addListener\<close> and
  \<open>addProject\<close>, every project is Active provided that no callback registered,
  whatever else it does, writes the status of a project.
\<close>

theorem projects_stay_Active:
  "(let s = run P es main; w = world s; i = projectState w
    in instance' s = Some i
     \<and> list_all (\<lambda>p. status p = Active) (projectsOf i s)
     \<and> filter (\<lambda>p. status p = Finished) (projectsOf i s) = []
     \<and> assignedProjects (finishedProjectLists w) = []
     \<and> rows (finishedProjectLists w) = []
     \<and> assignedProjects (activeProjectLists w) = projectsOf i s
     \<and> (\<forall>e. \<exists>lines. dispatch P (Drop e) s = s\<lparr>world := w\<lparr>console := lines\<rparr>\<rparr>))
   \<and> (list_all (registers keepsStatus) cs \<longrightarrow> performAll' P fuel cs (start' v) = Some u \<longrightarrow>
        list_all (\<lambda>p. status p = Active) (projectsOf' u)
        \<and> filter (\<lambda>p. status p = Finished) (projectsOf' u) = [])"
proof -
  define s where "s = run P es main"
  have inv: "appInv s"
    unfolding s_def by (rule appInv_run [OF appInv_main])
  then have act: "list_all (\<lambda>p. status p = Active) (projectsOf (projectState (world s)) s)"
    by (simp add: appInv_def Let_def)
  then have none: "filter (\<lambda>p. status p = Finished) (projectsOf (projectState (world s)) s) = []"
    by (auto simp: list_all_iff filter_empty_conv)
  have page: "let s = run P es main; w = world s; i = projectState w
    in instance' s = Some i
     \<and> list_all (\<lambda>p. status p = Active) (projectsOf i s)
     \<and> filter (\<lambda>p. status p = Finished) (projectsOf i s) = []
     \<and> assignedProjects (finishedProjectLists w) = []
     \<and> rows (finishedProjectLists w) = []
     \<and> assignedProjects (activeProjectLists w) = projectsOf i s
     \<and> (\<forall>e. \<exists>lines. dispatch P (Drop e) s = s\<lparr>world := w\<lparr>console := lines\<rparr>\<rparr>)"
    unfolding Let_def s_def [symmetric]
    using inv act none dispatch_Drop [of P _ s]
    by (simp add: appInv_def Let_def)
  have store: "list_all (\<lambda>p. status p = Active) (projectsOf' u)
      \<and> filter (\<lambda>p. status p = Finished) (projectsOf' u) = []"
    if r: "list_all (registers keepsStatus) cs" and p: "performAll' P fuel cs (start' v) = Some u"
  proof -
    have a: "list_all (\<lambda>p. status p = Active) (projectsOf' u)"
      by (rule store_stays_Active [OF r p])
    then have "filter (\<lambda>p. status p = Finished) (projectsOf' u) = []"
      by (auto simp: list_all_iff filter_empty_conv)
    then show ?thesis
      using a by simp
  qed
  show ?thesis
    using page store by blast
qed

text \<open>
  The page after a submission that passes, and the Store after the calls \<open>calm\<close>,
  whose callbacks add a project in their turn and write a title.
\<close>

theorem projects_stay_Active_witness:
  "projectsOf 0 (run examplePlatform
      [InputTitle (utf16 ''Learn Systems Design''), InputDescription (utf16 ''Study the paper''),
       InputPeople (utf16 ''3''), Submit] main) =
     [\<lparr>id' = utf16 ''0.5'', title = utf16 ''Learn Systems Design'',
       description = utf16 ''Study the paper'', people = Finite 3, status = Active\<rparr>]
   \<and> assignedProjects (activeProjectLists (world (run examplePlatform
      [InputTitle (utf16 ''Learn Systems Design''), InputDescription (utf16 ''Study the paper''),
       InputPeople (utf16 ''3''), Submit] main))) =
     [\<lparr>id' = utf16 ''0.5'', title = utf16 ''Learn Systems Design'',
       description = utf16 ''Study the paper'', people = Finite 3, status = Active\<rparr>]
   \<and> assignedProjects (finishedProjectLists (world (run examplePlatform
      [InputTitle (utf16 ''Learn Systems Design''), InputDescription (utf16 ''Study the paper''),
       InputPeople (utf16 ''3''), Submit] main))) = []
   \<and> list_all (registers keepsStatus) calm
   \<and> (\<exists>u. performAll' examplePlatform 3 calm (start' 0) = Some u
        \<and> map title (projectsOf' u) = [utf16 ''renamed'', utf16 ''x'']
        \<and> list_all (\<lambda>p. status p = Active) (projectsOf' u))"
proof -
  define es where "es = [InputTitle (utf16 ''Learn Systems Design''),
      InputDescription (utf16 ''Study the paper''), InputPeople (utf16 ''3''), Submit]"
  define s where "s = run examplePlatform es main"
  have s: "s = submitHandler examplePlatform
      (typed (utf16 ''Learn Systems Design'') (utf16 ''Study the paper'') (utf16 ''3''))"
    by (simp add: s_def es_def run_def typed_def)
  have i0: "instance' s = Some 0"
    and seq: "projectsOf 0 s = [\<lparr>id' = utf16 ''0.5'', title = utf16 ''Learn Systems Design'',
        description = utf16 ''Study the paper'', people = Finite 3, status = Active\<rparr>]"
    unfolding s by (rule submitted)+
  from calm_Active obtain u where run: "performAll' examplePlatform 3 calm (start' 0) = Some u"
    and t: "map title (projectsOf' u) = [utf16 ''renamed'', utf16 ''x'']"
    by (elim exE conjE)
  note inv = projects_stay_Active [where P = examplePlatform and es = es and cs = calm
      and fuel = 3 and v = 0 and u = u, unfolded Let_def, folded s_def]
  from inv i0 have i: "projectState (world s) = 0"
    by simp
  from inv have fin: "assignedProjects (finishedProjectLists (world s)) = []"
    and actv: "assignedProjects (activeProjectLists (world s)) = projectsOf (projectState (world s)) s"
    by blast+
  from inv calm_keeps run have a: "list_all (\<lambda>p. status p = Active) (projectsOf' u)"
    by blast
  have "performAll' examplePlatform 3 calm (start' 0) = Some u
      \<and> map title (projectsOf' u) = [utf16 ''renamed'', utf16 ''x'']
      \<and> list_all (\<lambda>p. status p = Active) (projectsOf' u)"
    using run t a by (intro conjI)
  then have ex: "\<exists>u. performAll' examplePlatform 3 calm (start' 0) = Some u
      \<and> map title (projectsOf' u) = [utf16 ''renamed'', utf16 ''x'']
      \<and> list_all (\<lambda>p. status p = Active) (projectsOf' u)"
    by (rule exI)
  have p1: "projectsOf 0 s = [\<lparr>id' = utf16 ''0.5'', title = utf16 ''Learn Systems Design'',
        description = utf16 ''Study the paper'', people = Finite 3, status = Active\<rparr>]"
    by (rule seq)
  have p2: "assignedProjects (activeProjectLists (world s)) =
      [\<lparr>id' = utf16 ''0.5'', title = utf16 ''Learn Systems Design'',
        description = utf16 ''Study the paper'', people = Finite 3, status = Active\<rparr>]"
    using actv i seq by simp
  show ?thesis
    unfolding es_def [symmetric] s_def [symmetric]
    using p1 p2 fin calm_keeps ex by (intro conjI)
qed

text \<open>
  C5 as stated fails for a Store with a callback that writes a status, which the type
  \<open>Listener\<close> and the public fields of \<open>Project\<close> admit: with \<open>finisher\<close>
  registered, the project that \<open>addProject\<close> has appended is Finished when the call
  returns.
\<close>

theorem status_writing_callback_counterexample:
  "map_option (map status \<circ> projectsOf')
     (performAll' examplePlatform 2
        [AddListener' finisher, AddProject' (utf16 ''a'') (utf16 ''first'') (Finite 1)]
        (start' 0))
     = Some [Finished]"
  by (simp add: eval_nat_numeral addListener'_def start'_def push_def handOut_def projectsOf'_def
      Let_def finisher_def examplePlatform_def fives_def)

end
